theory Spec2Isabelle
  imports Main
begin

section \<open>Records, rejection values and promises\<close>

text \<open>
  The helper stores plain objects typed \<^verbatim>\<open>T & { id?: number }\<close>. An object is
  its optional numeric \<^verbatim>\<open>id\<close> together with its other own properties. Numbers are
  taken as integers; an absent \<^verbatim>\<open>id\<close> and \<^verbatim>\<open>id: undefined\<close> are both \<open>None\<close>
  (the object store treats them alike).
\<close>

datatype val = VUndefined | VNull | VBool bool | VNum int | VStr string

record item =
  item_id :: "int option"
  props :: "string \<rightharpoonup> val"

text \<open>Names of the DOMExceptions the storage engine raises or reports.\<close>

datatype dom_error =
  DataError | NotFoundError | InvalidStateError | ConstraintError
  | QuotaExceededError | VersionError | AbortError | UnknownError

text \<open>
  What a promise is rejected with: the \<^verbatim>\<open>TypeError\<close> of a property read on
  \<^verbatim>\<open>undefined\<close> (or of \<^verbatim>\<open>indexedDB.open\<close> with version 0), a DOMException,
  \<^verbatim>\<open>new Error(message)\<close>, or the value \<^verbatim>\<open>null\<close>.
\<close>

datatype reason = TypeError | DOMException dom_error | Error string | Null

text \<open>A promise is settled once, or stays pending for ever.\<close>

datatype 'a promise = Resolved 'a | Rejected reason | Pending

section \<open>The storage engine\<close>

text \<open>
  The engine is the browser's IndexedDB, not part of the repository; it is
  modelled after the Indexed Database API as far as the helper uses it.

  The object store \<^verbatim>\<open>storeName\<close> of the database \<^verbatim>\<open>dbName\<close>: its records in
  ascending key order, the current number of its key generator, and its
  indexes (name and key path).
\<close>

record object_store =
  records :: "(int \<times> item) list"
  keygen :: int
  indexes :: "(string \<times> string) list"

datatype connection = Open | Closed

datatype mode = ReadOnly | ReadWrite

datatype request =
  Put item | Get int | GetAll | Delete int | Clear | Count | IndexGet string val

text \<open>
  What the engine does with the next transaction: it commits; its request
  number \<open>i\<close> reports an error; or every request succeeds and the commit
  itself fails (the transaction aborts with no request error).
\<close>

datatype fate = Commit | RequestError nat dom_error | CommitError dom_error

text \<open>
  The world: the database (its version, 0 when it does not exist, and the
  object store), the field \<^verbatim>\<open>this.db\<close> of the helper that caches its handle
  (\<open>None\<close> is \<^verbatim>\<open>undefined\<close>), the version of an open request in flight, the fates of
  the transactions to come (none listed: commit), and the journal of the
  requests placed so far, grouped by transaction, with the transaction's mode.
\<close>

record world =
  version :: nat
  store :: "object_store option"
  db :: "connection option"
  pending :: "nat option"
  fates :: "fate list"
  journal :: "(mode \<times> request list) list"

type_synonym 'a primitive = "object_store \<Rightarrow> dom_error + 'a \<times> object_store"

text \<open>Writing a record at its key: an existing record of that key is replaced.\<close>

fun upsert :: "int \<Rightarrow> item \<Rightarrow> (int \<times> item) list \<Rightarrow> (int \<times> item) list" where
  "upsert k v [] = [(k, v)]"
| "upsert k v ((k', v') # rs) =
     (if k < k' then (k, v) # (k', v') # rs
      else if k = k' then (k, v) # rs
      else (k', v') # upsert k v rs)"

text \<open>
  \<^verbatim>\<open>store.put(data)\<close> on a store with key path \<^verbatim>\<open>id\<close> and a key generator: a
  record that carries an id is stored under it and the generator moves past
  it; a record without one gets the generator's number injected as its id,
  and the request fails with ConstraintError once the generator is used up.
\<close>

definition store_put :: "item \<Rightarrow> int primitive" where
  "store_put data s =
     (case item_id data of
        Some k \<Rightarrow>
          Inr (k, s\<lparr>records := upsert k data (records s),
                    keygen := (if keygen s \<le> min k (2 ^ 53) then min k (2 ^ 53) + 1
                               else keygen s)\<rparr>)
      | None \<Rightarrow>
          if 2 ^ 53 < keygen s then Inl ConstraintError
          else Inr (keygen s,
                    s\<lparr>records := upsert (keygen s) (data\<lparr>item_id := Some (keygen s)\<rparr>) (records s),
                      keygen := keygen s + 1\<rparr>))"

definition store_get :: "int \<Rightarrow> item option primitive" where
  "store_get k s = Inr (map_of (records s) k, s)"

definition store_getAll :: "item list primitive" where
  "store_getAll s = Inr (map snd (records s), s)"

definition store_delete :: "int \<Rightarrow> unit primitive" where
  "store_delete k s = Inr ((), s\<lparr>records := filter (\<lambda>kv. fst kv \<noteq> k) (records s)\<rparr>)"

definition store_clear :: "unit primitive" where
  "store_clear s = Inr ((), s\<lparr>records := []\<rparr>)"

definition store_count :: "nat primitive" where
  "store_count s = Inr (length (records s), s)"

text \<open>The value of a property of a record, as a key path reads it.\<close>

definition property :: "item \<Rightarrow> string \<Rightarrow> val option" where
  "property r f = (if f = ''id'' then map_option VNum (item_id r) else props r f)"

fun valid_key :: "val \<Rightarrow> bool" where
  "valid_key (VNum _) = True"
| "valid_key (VStr _) = True"
| "valid_key _ = False"

text \<open>
  \<^verbatim>\<open>index.get(value)\<close>: the first record, in key order, whose property at the
  index's key path is the value.
\<close>

definition index_get :: "string \<Rightarrow> val \<Rightarrow> item option primitive" where
  "index_get keyPath v s =
     Inr (find (\<lambda>r. property r keyPath = Some v) (map snd (records s)), s)"

text \<open>
  \<^verbatim>\<open>db.transaction(storeName, mode).objectStore(storeName)\<close>: InvalidStateError on
  a closed connection, NotFoundError when the database has no such store.
\<close>

definition transaction :: "connection \<Rightarrow> mode \<Rightarrow> world \<Rightarrow> reason + mode \<times> object_store" where
  "transaction conn m w =
     (case conn of
        Closed \<Rightarrow> Inl (DOMException InvalidStateError)
      | Open \<Rightarrow> (case store w of
                   None \<Rightarrow> Inl (DOMException NotFoundError)
                 | Some s \<Rightarrow> Inr (m, s)))"

definition next_fate :: "world \<Rightarrow> fate" where
  "next_fate w = (case fates w of [] \<Rightarrow> Commit | f # _ \<Rightarrow> f)"

definition fails :: "fate \<Rightarrow> nat \<Rightarrow> dom_error option" where
  "fails f i = (case f of RequestError j e \<Rightarrow> if i = j then Some e else None | _ \<Rightarrow> None)"

definition commits :: "fate \<Rightarrow> bool" where
  "commits f = (case f of CommitError _ \<Rightarrow> False | _ \<Rightarrow> True)"

text \<open>The event a request ends with: \<^verbatim>\<open>success\<close> with its result, or \<^verbatim>\<open>error\<close>.\<close>

datatype 'a event = Success 'a | Failure dom_error

text \<open>
  A transaction of one request. The request is journalled and the next fate
  consumed; a failed request or a failed commit leaves the store as it was.
  The success event fires before the commit, so it fires also when the
  commit then fails.
\<close>

definition request ::
  "request \<Rightarrow> 'a primitive \<Rightarrow> mode \<times> object_store \<Rightarrow> world \<Rightarrow> 'a event \<times> world" where
  "request rq prim st w =
     (let f = next_fate w;
          w' = w\<lparr>fates := tl (fates w), journal := journal w @ [(fst st, [rq])]\<rparr>
      in case fails f 0 of
           Some e \<Rightarrow> (Failure e, w')
         | None \<Rightarrow>
             (case prim (snd st) of
                Inl e \<Rightarrow> (Failure e, w')
              | Inr (result, s') \<Rightarrow>
                  (Success result, if commits f then w'\<lparr>store := Some s'\<rparr> else w')))"

text \<open>
  The requests of one transaction run in order from request number \<open>i\<close>; the
  first failure stops them.
\<close>

fun run_requests :: "'a primitive list \<Rightarrow> nat \<Rightarrow> fate \<Rightarrow> object_store \<Rightarrow> dom_error + object_store" where
  "run_requests [] i f s = Inr s"
| "run_requests (p # ps) i f s =
     (case fails f i of
        Some e \<Rightarrow> Inl e
      | None \<Rightarrow> (case p s of
                   Inl e \<Rightarrow> Inl e
                 | Inr (_, s') \<Rightarrow> run_requests ps (Suc i) f s'))"

text \<open>
  The events that reach the transaction object, each with the value its
  \<^verbatim>\<open>error\<close> attribute has while the handlers run. The error event of a failed
  request bubbles to the transaction before the transaction is aborted, and
  aborting is what sets the attribute; the abort event follows. A failed
  commit fires the abort event alone.
\<close>

datatype signal = Complete | ErrorEvent "dom_error option" | Abort "dom_error option"

definition transact ::
  "request list \<Rightarrow> 'a primitive list \<Rightarrow> mode \<times> object_store \<Rightarrow> world \<Rightarrow> signal list \<times> world" where
  "transact rqs prims st w =
     (let f = next_fate w;
          w' = w\<lparr>fates := tl (fates w), journal := journal w @ [(fst st, rqs)]\<rparr>
      in case run_requests prims 0 f (snd st) of
           Inl e \<Rightarrow> ([ErrorEvent None, Abort (Some e)], w')
         | Inr s' \<Rightarrow>
             (case f of
                CommitError e \<Rightarrow> ([Abort (Some e)], w')
              | _ \<Rightarrow> ([Complete], w'\<lparr>store := Some s'\<rparr>)))"

section \<open>Opening the database\<close>

text \<open>
  The upgrade handler of both classes:
  \<^verbatim>\<open>if (!db.objectStoreNames.contains(storeName)) db.createObjectStore(storeName, { keyPath: "id", autoIncrement: true })\<close>.
\<close>

definition onupgradeneeded :: "world \<Rightarrow> world" where
  "onupgradeneeded w =
     (case store w of
        None \<Rightarrow> w\<lparr>store := Some \<lparr>records = [], keygen = 1, indexes = []\<rparr>\<rparr>
      | Some _ \<Rightarrow> w)"

text \<open>
  \<^verbatim>\<open>indexedDB.open(dbName, version)\<close> run to its end: version 0 is a TypeError, a
  version below the database's a VersionError, a version above it runs the
  upgrade handler.
\<close>

definition indexedDB_open :: "nat \<Rightarrow> world \<Rightarrow> (reason + connection) \<times> world" where
  "indexedDB_open v w =
     (if v = 0 then (Inl TypeError, w)
      else if v < version w then (Inl (DOMException VersionError), w)
      else if version w < v then (Inr Open, onupgradeneeded (w\<lparr>version := v\<rparr>))
      else (Inr Open, w))"

section \<open>Promises over requests\<close>

text \<open>
  The handlers every request gets:
  \<^verbatim>\<open>request.onsuccess = () => resolve(f(request.result)); request.onerror = () => reject(request.error)\<close>.
\<close>

definition settle :: "('a \<Rightarrow> 'b) \<Rightarrow> 'a event \<times> world \<Rightarrow> 'b promise \<times> world" where
  "settle f ew =
     (case fst ew of
        Success result \<Rightarrow> (Resolved (f result), snd ew)
      | Failure error \<Rightarrow> (Rejected (DOMException error), snd ew))"

section \<open>The helper that opens the database in every operation\<close>

text \<open>
  The first class of \<^verbatim>\<open>src/index.ts\<close>: every method awaits \<^verbatim>\<open>openDB\<close> and runs its
  request on the connection it gets. Its methods carry the suffix \<open>_v1\<close> here;
  \<open>v\<close> is the field \<^verbatim>\<open>version\<close>.
\<close>

definition openDB :: "nat \<Rightarrow> world \<Rightarrow> (reason + connection) \<times> world" where
  "openDB v w = indexedDB_open v w"

definition setItem_v1 :: "nat \<Rightarrow> item \<Rightarrow> world \<Rightarrow> int promise \<times> world" where
  "setItem_v1 v data w =
     (case openDB v w of
        (Inl e, w1) \<Rightarrow> (Rejected e, w1)
      | (Inr conn, w1) \<Rightarrow>
          (case transaction conn ReadWrite w1 of
             Inl e \<Rightarrow> (Rejected e, w1)
           | Inr st \<Rightarrow> settle (\<lambda>result. result) (request (Put data) (store_put data) st w1)))"

definition getItem_v1 :: "nat \<Rightarrow> int \<Rightarrow> world \<Rightarrow> item option promise \<times> world" where
  "getItem_v1 v k w =
     (case openDB v w of
        (Inl e, w1) \<Rightarrow> (Rejected e, w1)
      | (Inr conn, w1) \<Rightarrow>
          (case transaction conn ReadOnly w1 of
             Inl e \<Rightarrow> (Rejected e, w1)
           | Inr st \<Rightarrow> settle (\<lambda>result. result) (request (Get k) (store_get k) st w1)))"

definition getAllItems_v1 :: "nat \<Rightarrow> world \<Rightarrow> item list promise \<times> world" where
  "getAllItems_v1 v w =
     (case openDB v w of
        (Inl e, w1) \<Rightarrow> (Rejected e, w1)
      | (Inr conn, w1) \<Rightarrow>
          (case transaction conn ReadOnly w1 of
             Inl e \<Rightarrow> (Rejected e, w1)
           | Inr st \<Rightarrow> settle (\<lambda>result. result) (request GetAll store_getAll st w1)))"

definition removeItem_v1 :: "nat \<Rightarrow> int \<Rightarrow> world \<Rightarrow> unit promise \<times> world" where
  "removeItem_v1 v k w =
     (case openDB v w of
        (Inl e, w1) \<Rightarrow> (Rejected e, w1)
      | (Inr conn, w1) \<Rightarrow>
          (case transaction conn ReadWrite w1 of
             Inl e \<Rightarrow> (Rejected e, w1)
           | Inr st \<Rightarrow> settle (\<lambda>_. ()) (request (Delete k) (store_delete k) st w1)))"

definition clear_v1 :: "nat \<Rightarrow> world \<Rightarrow> unit promise \<times> world" where
  "clear_v1 v w =
     (case openDB v w of
        (Inl e, w1) \<Rightarrow> (Rejected e, w1)
      | (Inr conn, w1) \<Rightarrow>
          (case transaction conn ReadWrite w1 of
             Inl e \<Rightarrow> (Rejected e, w1)
           | Inr st \<Rightarrow> settle (\<lambda>_. ()) (request Clear store_clear st w1)))"

section \<open>The helper that caches its handle\<close>

text \<open>
  The second class of \<^verbatim>\<open>src/index.ts\<close>, the documented one. The constructor calls \<^verbatim>\<open>init\<close>, which places the open request and returns;
  \<^verbatim>\<open>this.db\<close> is assigned by the success handler, when the engine delivers the
  event. \<open>None\<close>: \<^verbatim>\<open>indexedDB.open\<close> throws and there is no helper.
\<close>

definition init :: "nat \<Rightarrow> world \<Rightarrow> world option" where
  "init v w = (if v = 0 then None else Some (w\<lparr>pending := Some v\<rparr>))"

text \<open>
  The engine ends the open request in flight: \<^verbatim>\<open>onsuccess\<close> stores the handle,
  \<^verbatim>\<open>onerror\<close> writes to the console and leaves \<^verbatim>\<open>this.db\<close> as it is.
\<close>

definition open_done :: "world \<Rightarrow> world" where
  "open_done w =
     (case pending w of
        None \<Rightarrow> w
      | Some v \<Rightarrow>
          (case indexedDB_open v w of
             (Inr conn, w1) \<Rightarrow> w1\<lparr>db := Some conn, pending := None\<rparr>
           | (Inl e, w1) \<Rightarrow> w1\<lparr>pending := None\<rparr>))"

definition tx :: "mode \<Rightarrow> world \<Rightarrow> reason + mode \<times> object_store" where
  "tx m w = (case db w of None \<Rightarrow> Inl TypeError | Some conn \<Rightarrow> transaction conn m w)"

definition setItem :: "item \<Rightarrow> world \<Rightarrow> int promise \<times> world" where
  "setItem data w =
     (case tx ReadWrite w of
        Inl e \<Rightarrow> (Rejected e, w)
      | Inr st \<Rightarrow> settle (\<lambda>result. result) (request (Put data) (store_put data) st w))"

definition getItem :: "int \<Rightarrow> world \<Rightarrow> item option promise \<times> world" where
  "getItem k w =
     (case tx ReadOnly w of
        Inl e \<Rightarrow> (Rejected e, w)
      | Inr st \<Rightarrow> settle (\<lambda>result. result) (request (Get k) (store_get k) st w))"

definition getAllItems :: "world \<Rightarrow> item list promise \<times> world" where
  "getAllItems w =
     (case tx ReadOnly w of
        Inl e \<Rightarrow> (Rejected e, w)
      | Inr st \<Rightarrow> settle (\<lambda>result. result) (request GetAll store_getAll st w))"

definition removeItem :: "int \<Rightarrow> world \<Rightarrow> unit promise \<times> world" where
  "removeItem k w =
     (case tx ReadWrite w of
        Inl e \<Rightarrow> (Rejected e, w)
      | Inr st \<Rightarrow> settle (\<lambda>_. ()) (request (Delete k) (store_delete k) st w))"

definition clear :: "world \<Rightarrow> unit promise \<times> world" where
  "clear w =
     (case tx ReadWrite w of
        Inl e \<Rightarrow> (Rejected e, w)
      | Inr st \<Rightarrow> settle (\<lambda>_. ()) (request Clear store_clear st w))"

text \<open>\<^verbatim>\<open>!!request.result\<close>: a record is an object, hence truthy; \<^verbatim>\<open>undefined\<close> is not.\<close>

definition truthy :: "item option \<Rightarrow> bool" where
  "truthy result = (case result of None \<Rightarrow> False | Some _ \<Rightarrow> True)"

definition hasItem :: "int \<Rightarrow> world \<Rightarrow> bool promise \<times> world" where
  "hasItem k w =
     (case tx ReadOnly w of
        Inl e \<Rightarrow> (Rejected e, w)
      | Inr st \<Rightarrow> settle (\<lambda>result. truthy result) (request (Get k) (store_get k) st w))"

definition count :: "world \<Rightarrow> nat promise \<times> world" where
  "count w =
     (case tx ReadOnly w of
        Inl e \<Rightarrow> (Rejected e, w)
      | Inr st \<Rightarrow> settle (\<lambda>result. result) (request Count store_count st w))"

text \<open>
  \<^verbatim>\<open>updateItem\<close>: a rejected \<^verbatim>\<open>await\<close> throws into the \<^verbatim>\<open>catch\<close>, which rejects with
  the same value. \<^verbatim>\<open>!existing\<close> holds of \<^verbatim>\<open>undefined\<close> and of no record.
  \<^verbatim>\<open>{ ...existing, ...updates, id }\<close> takes the properties of \<^verbatim>\<open>existing\<close>, then those
  of \<^verbatim>\<open>updates\<close>, then \<^verbatim>\<open>id\<close>: the last \<^verbatim>\<open>id\<close> stands.
\<close>

definition updateItem :: "int \<Rightarrow> item \<Rightarrow> world \<Rightarrow> unit promise \<times> world" where
  "updateItem k updates w =
     (case getItem k w of
        (Rejected error, w1) \<Rightarrow> (Rejected error, w1)
      | (Pending, w1) \<Rightarrow> (Pending, w1)
      | (Resolved existing, w1) \<Rightarrow>
          (case existing of
             None \<Rightarrow> (Rejected (Error ''Item not found!''), w1)
           | Some e \<Rightarrow>
               (let updatedData = \<lparr>item_id = Some k, props = props e ++ props updates\<rparr>
                in case setItem updatedData w1 of
                     (Rejected error, w2) \<Rightarrow> (Rejected error, w2)
                   | (Pending, w2) \<Rightarrow> (Pending, w2)
                   | (Resolved _, w2) \<Rightarrow> (Resolved (), w2))))"

text \<open>
  \<^verbatim>\<open>store.index(indexName)\<close> throws NotFoundError when the store has no such
  index, and \<^verbatim>\<open>index.get(value)\<close> throws DataError when the value is not a key;
  a throw in the executor rejects the promise. The read-only transaction that
  \<^verbatim>\<open>this.tx("readonly")\<close> has begun by then is left without a request.
\<close>

definition no_request :: "mode \<times> object_store \<Rightarrow> world \<Rightarrow> world" where
  "no_request st w = snd (transact [] ([] :: unit primitive list) st w)"

definition getByIndex :: "string \<Rightarrow> val \<Rightarrow> world \<Rightarrow> item option promise \<times> world" where
  "getByIndex indexName v w =
     (case tx ReadOnly w of
        Inl e \<Rightarrow> (Rejected e, w)
      | Inr st \<Rightarrow>
          (case map_of (indexes (snd st)) indexName of
             None \<Rightarrow>
               (Rejected (DOMException NotFoundError), no_request st w)
           | Some keyPath \<Rightarrow>
               if \<not> valid_key v
               then (Rejected (DOMException DataError), no_request st w)
               else settle (\<lambda>result. result)
                      (request (IndexGet indexName v) (index_get keyPath v) st w)))"

definition getItemsByFilter :: "(item \<Rightarrow> bool) \<Rightarrow> world \<Rightarrow> item list promise \<times> world" where
  "getItemsByFilter filter_fn w =
     (case tx ReadOnly w of
        Inl e \<Rightarrow> (Rejected e, w)
      | Inr st \<Rightarrow> settle (\<lambda>result. filter filter_fn result) (request GetAll store_getAll st w))"

text \<open>\<^verbatim>\<open>item.id >= startId && item.id <= endId\<close>; a comparison with \<^verbatim>\<open>undefined\<close> is false.\<close>

definition in_range :: "int \<Rightarrow> int \<Rightarrow> item \<Rightarrow> bool" where
  "in_range startId endId r =
     (case item_id r of None \<Rightarrow> False | Some i \<Rightarrow> startId \<le> i \<and> i \<le> endId)"

definition getItemsByRange :: "int \<Rightarrow> int \<Rightarrow> world \<Rightarrow> item list promise \<times> world" where
  "getItemsByRange startId endId w =
     (case tx ReadOnly w of
        Inl e \<Rightarrow> (Rejected e, w)
      | Inr st \<Rightarrow>
          settle (\<lambda>result. filter (in_range startId endId) result)
            (request GetAll store_getAll st w))"

text \<open>
  The handlers of the bulk operations:
  \<^verbatim>\<open>tx.oncomplete = () => resolve(); tx.onerror = () => reject(tx.error)\<close>.
  Nothing listens to the abort event.
\<close>

fun listen :: "signal list \<Rightarrow> unit promise" where
  "listen [] = Pending"
| "listen (Complete # _) = Resolved ()"
| "listen (ErrorEvent None # _) = Rejected Null"
| "listen (ErrorEvent (Some e) # _) = Rejected (DOMException e)"
| "listen (Abort _ # sigs) = listen sigs"

definition bulkInsert :: "item list \<Rightarrow> world \<Rightarrow> unit promise \<times> world" where
  "bulkInsert items w =
     (case db w of
        None \<Rightarrow> (Rejected TypeError, w)
      | Some conn \<Rightarrow>
          (case transaction conn ReadWrite w of
             Inl e \<Rightarrow> (Rejected e, w)
           | Inr st \<Rightarrow>
               (case transact (map Put items) (map store_put items) st w of
                  (sigs, w') \<Rightarrow> (listen sigs, w'))))"

definition bulkDelete :: "int list \<Rightarrow> world \<Rightarrow> unit promise \<times> world" where
  "bulkDelete ids w =
     (case db w of
        None \<Rightarrow> (Rejected TypeError, w)
      | Some conn \<Rightarrow>
          (case transaction conn ReadWrite w of
             Inl e \<Rightarrow> (Rejected e, w)
           | Inr st \<Rightarrow>
               (case transact (map Delete ids) (map store_delete ids) st w of
                  (sigs, w') \<Rightarrow> (listen sigs, w'))))"

definition closeDB :: "world \<Rightarrow> world" where
  "closeDB w = (case db w of None \<Rightarrow> w | Some _ \<Rightarrow> w\<lparr>db := Some Closed\<rparr>)"

section \<open>Well-formed stores and sample data\<close>

text \<open>
  What the engine keeps of an object store with key path \<^verbatim>\<open>id\<close>: keys strictly
  ascending, and every record carrying its key as its id.
\<close>

definition wf_store :: "object_store \<Rightarrow> bool" where
  "wf_store s =
     (sorted_wrt (<) (map fst (records s)) \<and> list_all (\<lambda>kv. item_id (snd kv) = Some (fst kv)) (records s))"

definition world_wf :: "world \<Rightarrow> bool" where
  "world_wf w = (case store w of None \<Rightarrow> True | Some s \<Rightarrow> wf_store s)"

text \<open>
  Sample data: a helper whose handle is open on a database of version 1, the
  record \<^verbatim>\<open>{ id, name, age }\<close>, a store holding \<^verbatim>\<open>{ id: 1, name: "A", age: 1 }\<close>,
  and the patch \<^verbatim>\<open>{ age }\<close>.
\<close>

definition opened :: "object_store \<Rightarrow> world" where
  "opened s = \<lparr>version = 1, store = Some s, db = Some Open, pending = None, fates = [], journal = []\<rparr>"

definition person :: "int \<Rightarrow> string \<Rightarrow> int \<Rightarrow> item" where
  "person i n a = \<lparr>item_id = Some i, props = [''name'' \<mapsto> VStr n, ''age'' \<mapsto> VNum a]\<rparr>"

definition one_person :: object_store where
  "one_person = \<lparr>records = [(1, person 1 ''A'' 1)], keygen = 2, indexes = []\<rparr>"

definition age_patch :: "int \<Rightarrow> item" where
  "age_patch a = \<lparr>item_id = None, props = [''age'' \<mapsto> VNum a]\<rparr>"

text \<open>
  A store holding the records with ids 1 to 5, a store with an index on
  \<^verbatim>\<open>name\<close>, the world before the database exists, and the opened helper whose
  next transaction meets the given fate.
\<close>

definition five :: object_store where
  "five = \<lparr>records = [(1, person 1 ''A'' 1), (2, person 2 ''B'' 2), (3, person 3 ''C'' 3),
                       (4, person 4 ''D'' 4), (5, person 5 ''E'' 5)],
            keygen = 6, indexes = []\<rparr>"

definition by_name :: object_store where
  "by_name = \<lparr>records = [(1, person 1 ''A'' 1), (2, person 2 ''B'' 2)],
               keygen = 3, indexes = [(''name_idx'', ''name'')]\<rparr>"

definition fresh :: world where
  "fresh = \<lparr>version = 0, store = None, db = None, pending = None, fates = [], journal = []\<rparr>"

definition failing :: "fate \<Rightarrow> world" where
  "failing f = (opened one_person)\<lparr>fates := [f]\<rparr>"

section \<open>The record list\<close>

lemma map_of_upsert_same: "map_of (upsert k v rs) k = Some v"
  by (induction rs) auto

lemma map_of_upsert_other: "k' \<noteq> k \<Longrightarrow> map_of (upsert k v rs) k' = map_of rs k'"
  by (induction rs) auto

lemma keys_upsert: "set (map fst (upsert k v rs)) = insert k (set (map fst rs))"
  by (induction rs) (force split: if_splits)+

lemma sorted_upsert:
  "sorted_wrt (<) (map fst rs) \<Longrightarrow> sorted_wrt (<) (map fst (upsert k v rs))"
proof (induction rs)
  case Nil
  then show ?case by simp
next
  case (Cons a rs)
  obtain k' v' where a: "a = (k', v')" by (cases a)
  from Cons.prems have tl: "sorted_wrt (<) (map fst rs)" and hd: "\<forall>x\<in>set (map fst rs). k' < x"
    by (simp_all add: a)
  show ?case
  proof (cases "k < k'")
    case True
    with Cons.prems show ?thesis by (auto simp: a)
  next
    case False
    show ?thesis
    proof (cases "k = k'")
      case True
      with Cons.prems show ?thesis by (simp add: a)
    next
      case ne: False
      with False have "k' < k" by simp
      with hd have "\<forall>x\<in>set (map fst (upsert k v rs)). k' < x"
        unfolding keys_upsert by simp
      with Cons.IH[OF tl] False ne show ?thesis by (simp add: a)
    qed
  qed
qed

lemma all_upsert:
  "list_all P rs \<Longrightarrow> P (k, v) \<Longrightarrow> list_all P (upsert k v rs)"
  by (induction rs) auto

lemma wf_store_put:
  assumes "wf_store s" "store_put data s = Inr (k, s')"
  shows "wf_store s'"
  using assms
  by (auto simp: wf_store_def store_put_def sorted_upsert all_upsert split: option.splits if_splits)

lemma single_at_key:
  fixes rs :: "(int \<times> 'a) list"
  shows "sorted_wrt (<) (map fst rs) \<Longrightarrow> map_of rs k = Some v \<Longrightarrow> filter (\<lambda>kv. fst kv = k) rs = [(k, v)]"
proof (induction rs)
  case Nil
  then show ?case by simp
next
  case (Cons a rs)
  obtain k' v' where a: "a = (k', v')" by (cases a)
  from Cons.prems have tl: "sorted_wrt (<) (map fst rs)" and hd: "\<forall>x\<in>set rs. k' < fst x"
    by (simp_all add: a)
  show ?case
  proof (cases "k' = k")
    case True
    from hd True have "\<forall>x\<in>set rs. fst x \<noteq> k" by auto
    then have "filter (\<lambda>kv. fst kv = k) rs = []"
      by (simp add: filter_empty_conv)
    with True Cons.prems show ?thesis by (simp add: a)
  next
    case False
    with Cons.prems have "map_of rs k = Some v" by (simp add: a)
    from Cons.IH[OF tl this] False show ?thesis by (simp add: a)
  qed
qed


lemma map_of_removed: "map_of (filter (\<lambda>kv. fst kv \<noteq> x) rs) x = None"
  by (induction rs) auto

lemma remove_absent: "map_of rs x = None \<Longrightarrow> filter (\<lambda>kv. fst kv \<noteq> x) rs = rs"
  by (induction rs) (auto split: if_splits)


lemma wf_store_created: "wf_store \<lparr>records = [], keygen = 1, indexes = []\<rparr>"
  by (simp add: wf_store_def)

lemma wf_store_delete:
  assumes "wf_store s" "store_delete k s = Inr (u, s')"
  shows "wf_store s'"
proof -
  from assms(2) have r: "records s' = filter (\<lambda>kv. fst kv \<noteq> k) (records s)"
    by (auto simp: store_delete_def)
  have "map fst (records s') = filter (\<lambda>x. x \<noteq> k) (map fst (records s))"
    by (simp add: r filter_map comp_def)
  with assms(1) have "sorted_wrt (<) (map fst (records s'))"
    by (simp add: wf_store_def sorted_wrt_filter)
  moreover from assms(1) have "list_all (\<lambda>kv. item_id (snd kv) = Some (fst kv)) (records s')"
    by (simp add: wf_store_def r list_all_iff)
  ultimately show ?thesis by (simp add: wf_store_def)
qed

lemma wf_store_clear: "store_clear s = Inr (u, s') \<Longrightarrow> wf_store s'"
  by (auto simp: wf_store_def store_clear_def)

lemma store_put_keys:
  assumes "store_put data s = Inr (k, s')"
  shows "fst ` set (records s') = insert k (fst ` set (records s))"
proof -
  from assms obtain v where "records s' = upsert k v (records s)"
    by (auto simp: store_put_def split: option.splits if_splits)
  with keys_upsert[of k v "records s"] show ?thesis by simp
qed

lemma store_put_id: "store_put data s = Inr (k, s') \<Longrightarrow> item_id data = Some j \<Longrightarrow> k = j"
  by (auto simp: store_put_def)

lemma store_put_keyed:
  "item_id data = Some k \<Longrightarrow>
   \<exists>s'. store_put data s = Inr (k, s') \<and> records s' = upsert k data (records s)"
  by (simp add: store_put_def)

lemma one_record_with_id:
  assumes "wf_store s" "map_of (records s) k = Some v"
  shows "filter (\<lambda>r. item_id r = Some k) (map snd (records s)) = [v]"
proof -
  from assms(1) have sorted: "sorted_wrt (<) (map fst (records s))"
    and ids: "list_all (\<lambda>kv. item_id (snd kv) = Some (fst kv)) (records s)"
    by (simp_all add: wf_store_def)
  have "filter (\<lambda>r. item_id r = Some k) (map snd (records s))
          = map snd (filter (\<lambda>kv. item_id (snd kv) = Some k) (records s))"
    by (simp add: filter_map comp_def)
  also have "filter (\<lambda>kv. item_id (snd kv) = Some k) (records s)
          = filter (\<lambda>kv. fst kv = k) (records s)"
    using ids by (intro filter_cong) (auto simp: list_all_iff)
  also have "\<dots> = [(k, v)]"
    by (rule single_at_key[OF sorted assms(2)])
  finally show ?thesis by simp
qed

lemma in_range_by_key:
  assumes "list_all (\<lambda>kv. item_id (snd kv) = Some (fst kv)) rs"
  shows "filter (in_range lo hi) (map snd rs) = map snd (filter (\<lambda>kv. lo \<le> fst kv \<and> fst kv \<le> hi) rs)"
proof -
  have "filter (in_range lo hi) (map snd rs) = map snd (filter (\<lambda>kv. in_range lo hi (snd kv)) rs)"
    by (simp add: filter_map comp_def)
  also have "filter (\<lambda>kv. in_range lo hi (snd kv)) rs = filter (\<lambda>kv. lo \<le> fst kv \<and> fst kv \<le> hi) rs"
    using assms by (intro filter_cong) (auto simp: list_all_iff in_range_def)
  finally show ?thesis .
qed

lemma find_SomeD: "find P xs = Some x \<Longrightarrow> x \<in> set xs \<and> P x"
  by (induction xs) (auto split: if_splits)

lemma puts_keep_keys:
  "run_requests (map store_put items) i f s = Inr s' \<Longrightarrow>
   fst ` set (records s) \<subseteq> fst ` set (records s')"
proof (induction items arbitrary: i s)
  case Nil
  then show ?case by simp
next
  case (Cons r items)
  from Cons.prems obtain k s1 where p: "store_put r s = Inr (k, s1)"
    and rest: "run_requests (map store_put items) (Suc i) f s1 = Inr s'"
    by (auto split: option.splits sum.splits)
  from store_put_keys[OF p] Cons.IH[OF rest] show ?case by auto
qed

lemma puts_retrievable:
  "run_requests (map store_put items) i f s = Inr s' \<Longrightarrow> r \<in> set items \<Longrightarrow>
   item_id r = Some k \<Longrightarrow> map_of (records s') k \<noteq> None"
proof (induction items arbitrary: i s)
  case Nil
  then show ?case by simp
next
  case (Cons a items)
  from Cons.prems(1) obtain j s1 where p: "store_put a s = Inr (j, s1)"
    and rest: "run_requests (map store_put items) (Suc i) f s1 = Inr s'"
    by (auto split: option.splits sum.splits)
  show ?case
  proof (cases "r \<in> set items")
    case True
    from Cons.IH[OF rest True Cons.prems(3)] show ?thesis .
  next
    case False
    with Cons.prems(2) have "a = r" by simp
    with p Cons.prems(3) have "j = k" by (simp add: store_put_id)
    with store_put_keys[OF p] have "k \<in> fst ` set (records s1)" by simp
    with puts_keep_keys[OF rest] have "k \<in> fst ` set (records s')" by blast
    then show ?thesis by (simp add: map_of_eq_None_iff)
  qed
qed

section \<open>Operations on an open handle while the engine reports no failure\<close>

lemma tx_ready: "db w = Some Open \<Longrightarrow> store w = Some s \<Longrightarrow> tx m w = Inr (m, s)"
  by (simp add: tx_def transaction_def)

lemma request_commit:
  "fates w = [] \<Longrightarrow> prim s = Inr (r, s') \<Longrightarrow>
   request rq prim (m, s) w =
     (Success r, w\<lparr>fates := [], journal := journal w @ [(m, [rq])], store := Some s'\<rparr>)"
  by (simp add: request_def next_fate_def fails_def commits_def)

lemma setItem_ready:
  assumes "db w = Some Open" "store w = Some s" "fates w = []" "item_id data = Some k"
  shows "\<exists>s'. setItem data w =
           (Resolved k, w\<lparr>fates := [], journal := journal w @ [(ReadWrite, [Put data])], store := Some s'\<rparr>)
         \<and> records s' = upsert k data (records s) \<and> indexes s' = indexes s"
proof -
  obtain s' where p: "store_put data s = Inr (k, s')"
    and r: "records s' = upsert k data (records s)" "indexes s' = indexes s"
    using assms(4) by (simp add: store_put_def)
  from assms p have "setItem data w =
           (Resolved k, w\<lparr>fates := [], journal := journal w @ [(ReadWrite, [Put data])], store := Some s'\<rparr>)"
    by (simp add: setItem_def tx_ready request_commit settle_def)
  with r show ?thesis by blast
qed

lemma getItem_ready:
  assumes "db w = Some Open" "store w = Some s" "fates w = []"
  shows "getItem k w =
           (Resolved (map_of (records s) k),
            w\<lparr>fates := [], journal := journal w @ [(ReadOnly, [Get k])], store := Some s\<rparr>)"
  using assms by (simp add: getItem_def tx_ready request_commit settle_def store_get_def)

lemma removeItem_ready:
  assumes "db w = Some Open" "store w = Some s" "fates w = []"
  shows "removeItem x w =
           (Resolved (),
            w\<lparr>fates := [], journal := journal w @ [(ReadWrite, [Delete x])],
              store := Some (s\<lparr>records := filter (\<lambda>kv. fst kv \<noteq> x) (records s)\<rparr>)\<rparr>)"
  using assms by (simp add: removeItem_def tx_ready request_commit settle_def store_delete_def)

lemma hasItem_ready:
  assumes "db w = Some Open" "store w = Some s" "fates w = []"
  shows "hasItem k w =
           (Resolved (truthy (map_of (records s) k)),
            w\<lparr>fates := [], journal := journal w @ [(ReadOnly, [Get k])], store := Some s\<rparr>)"
  using assms by (simp add: hasItem_def tx_ready request_commit settle_def store_get_def)

lemma openDB_usable:
  assumes "0 < v" "version w \<le> v" "store w = Some s"
  shows "openDB v w = (Inr Open, w\<lparr>version := v\<rparr>)"
proof (cases "version w < v")
  case True
  with assms show ?thesis
    by (simp add: openDB_def indexedDB_open_def onupgradeneeded_def)
next
  case False
  with assms have "version w = v" by simp
  then have "w\<lparr>version := v\<rparr> = w" by simp
  with assms \<open>version w = v\<close> show ?thesis
    by (simp add: openDB_def indexedDB_open_def)
qed

lemma transaction_Open: "store w = Some s \<Longrightarrow> transaction Open m w = Inr (m, s)"
  by (simp add: transaction_def)

lemma removeItem_v1_usable:
  assumes "0 < v" "version w \<le> v" "store w = Some s" "fates w = []"
  shows "removeItem_v1 v x w =
           (Resolved (),
            w\<lparr>version := v, fates := [], journal := journal w @ [(ReadWrite, [Delete x])],
              store := Some (s\<lparr>records := filter (\<lambda>kv. fst kv \<noteq> x) (records s)\<rparr>)\<rparr>)"
  using assms
  by (simp add: removeItem_v1_def openDB_usable transaction_Open request_commit settle_def store_delete_def)

lemma getItem_v1_usable:
  assumes "0 < v" "version w \<le> v" "store w = Some s" "fates w = []"
  shows "getItem_v1 v k w =
           (Resolved (map_of (records s) k),
            w\<lparr>version := v, fates := [], journal := journal w @ [(ReadOnly, [Get k])], store := Some s\<rparr>)"
  using assms
  by (simp add: getItem_v1_def openDB_usable transaction_Open request_commit settle_def store_get_def)

lemma getItem_not_Error: "fst (getItem k w) \<noteq> Rejected (Error m)"
  by (auto simp: getItem_def settle_def tx_def transaction_def
           split: sum.splits event.splits option.splits connection.splits)

lemma setItem_not_Error: "fst (setItem d w) \<noteq> Rejected (Error m)"
  by (auto simp: setItem_def settle_def tx_def transaction_def
           split: sum.splits event.splits option.splits connection.splits)

lemma getItem_None_world:
  "getItem k w = (Resolved None, w1) \<Longrightarrow>
   store w1 = store w \<and> journal w1 = journal w @ [(ReadOnly, [Get k])]"
  by (auto simp: getItem_def settle_def tx_def transaction_def request_def store_get_def Let_def
           split: sum.splits event.splits option.splits connection.splits if_splits)

lemma setItem_commit:
  assumes "db w = Some Open" "store w = Some s" "fates w = []" "store_put data s = Inr (k, s')"
  shows "setItem data w =
           (Resolved k, w\<lparr>fates := [], journal := journal w @ [(ReadWrite, [Put data])], store := Some s'\<rparr>)"
  using assms by (simp add: setItem_def tx_ready request_commit settle_def)

lemma setItem_v1_commit:
  assumes "0 < v" "version w \<le> v" "store w = Some s" "fates w = []" "store_put data s = Inr (k, s')"
  shows "setItem_v1 v data w =
           (Resolved k,
            w\<lparr>version := v, fates := [], journal := journal w @ [(ReadWrite, [Put data])], store := Some s'\<rparr>)"
  using assms
  by (simp add: setItem_v1_def openDB_usable transaction_Open request_commit settle_def)

lemma getAllItems_ready:
  assumes "db w = Some Open" "store w = Some s" "fates w = []"
  shows "getAllItems w =
           (Resolved (map snd (records s)),
            w\<lparr>fates := [], journal := journal w @ [(ReadOnly, [GetAll])], store := Some s\<rparr>)"
  using assms by (simp add: getAllItems_def tx_ready request_commit settle_def store_getAll_def)

lemma getAllItems_v1_usable:
  assumes "0 < v" "version w \<le> v" "store w = Some s" "fates w = []"
  shows "getAllItems_v1 v w =
           (Resolved (map snd (records s)),
            w\<lparr>version := v, fates := [], journal := journal w @ [(ReadOnly, [GetAll])], store := Some s\<rparr>)"
  using assms
  by (simp add: getAllItems_v1_def openDB_usable transaction_Open request_commit settle_def store_getAll_def)

lemma getItemsByRange_ready:
  assumes "db w = Some Open" "store w = Some s" "fates w = []"
  shows "getItemsByRange lo hi w =
           (Resolved (filter (in_range lo hi) (map snd (records s))),
            w\<lparr>fates := [], journal := journal w @ [(ReadOnly, [GetAll])], store := Some s\<rparr>)"
  using assms by (simp add: getItemsByRange_def tx_ready request_commit settle_def store_getAll_def)

lemma empty_transaction:
  assumes "store w = Some s"
  shows "store (no_request (m, s) w) = store w"
    and "journal (no_request (m, s) w) = journal w @ [(m, [])]"
    and "fates (no_request (m, s) w) = tl (fates w)"
    and "db (no_request (m, s) w) = db w"
  using assms by (simp_all add: no_request_def transact_def Let_def split: fate.splits)

lemma getByIndex_undeclared:
  assumes "db w = Some Open" "store w = Some s" "map_of (indexes s) indexName = None"
  shows "getByIndex indexName v w =
           (Rejected (DOMException NotFoundError), no_request (ReadOnly, s) w)"
  using assms by (simp add: getByIndex_def tx_ready)

lemma getByIndex_not_a_key:
  assumes "db w = Some Open" "store w = Some s"
    and "map_of (indexes s) indexName = Some keyPath" "\<not> valid_key v"
  shows "getByIndex indexName v w =
           (Rejected (DOMException DataError), no_request (ReadOnly, s) w)"
  using assms by (simp add: getByIndex_def tx_ready)

lemma getByIndex_declared:
  assumes "db w = Some Open" "store w = Some s" "fates w = []"
    and "map_of (indexes s) indexName = Some keyPath" "valid_key v"
  shows "getByIndex indexName v w =
           (Resolved (find (\<lambda>r. property r keyPath = Some v) (map snd (records s))),
            w\<lparr>fates := [], journal := journal w @ [(ReadOnly, [IndexGet indexName v])], store := Some s\<rparr>)"
  using assms by (simp add: getByIndex_def tx_ready request_commit settle_def index_get_def)

section \<open>The store stays well-formed\<close>

lemma request_wf:
  assumes "world_wf w" "store w = Some s" "\<And>r s'. prim s = Inr (r, s') \<Longrightarrow> wf_store s'"
  shows "world_wf (snd (request rq prim (m, s) w))"
  using assms
  by (auto simp: request_def world_wf_def Let_def split: option.splits sum.splits)

lemma tx_store: "tx m w = Inr st \<Longrightarrow> store w = Some (snd st) \<and> fst st = m"
  by (auto simp: tx_def transaction_def split: option.splits connection.splits)

lemma transaction_store: "transaction conn m w = Inr st \<Longrightarrow> store w = Some (snd st) \<and> fst st = m"
  by (auto simp: transaction_def split: option.splits connection.splits)

lemma settle_world: "snd (settle f ew) = snd ew"
  by (simp add: settle_def split: event.splits)

lemma run_requests_wf:
  assumes "wf_store s" "run_requests prims i f s = Inr s'"
    and "\<And>p s r s'. p \<in> set prims \<Longrightarrow> wf_store s \<Longrightarrow> p s = Inr (r, s') \<Longrightarrow> wf_store s'"
  shows "wf_store s'"
  using assms
proof (induction prims arbitrary: i s)
  case Nil
  then show ?case by simp
next
  case (Cons p prims)
  from Cons.prems(2) obtain r s1 where p: "p s = Inr (r, s1)"
    and rest: "run_requests prims (Suc i) f s1 = Inr s'"
    by (auto split: option.splits sum.splits)
  from Cons.prems(3)[of p s r s1] Cons.prems(1) p have "wf_store s1" by simp
  moreover have "\<And>q s r s'. q \<in> set prims \<Longrightarrow> wf_store s \<Longrightarrow> q s = Inr (r, s') \<Longrightarrow> wf_store s'"
    using Cons.prems(3) by (meson list.set_intros(2))
  ultimately show ?case using Cons.IH[OF _ rest] by blast
qed

lemma transact_wf:
  assumes "world_wf w" "store w = Some s"
    and "\<And>p s r s'. p \<in> set prims \<Longrightarrow> wf_store s \<Longrightarrow> p s = Inr (r, s') \<Longrightarrow> wf_store s'"
  shows "world_wf (snd (transact rqs prims (m, s) w))"
proof -
  from assms(1,2) have wf: "wf_store s" by (simp add: world_wf_def)
  show ?thesis
  proof (cases "run_requests prims 0 (next_fate w) s")
    case (Inl e)
    with assms(1) show ?thesis
      by (simp add: transact_def world_wf_def Let_def)
  next
    case (Inr s')
    from run_requests_wf[OF wf Inr] assms(3) have "wf_store s'" by blast
    with Inr assms(1) show ?thesis
      by (simp add: transact_def world_wf_def Let_def split: fate.splits)
  qed
qed

lemma indexedDB_open_wf: "world_wf w \<Longrightarrow> world_wf (snd (indexedDB_open v w))"
  by (auto simp: indexedDB_open_def onupgradeneeded_def world_wf_def wf_store_def
           split: option.splits)

lemma open_done_wf: "world_wf w \<Longrightarrow> world_wf (open_done w)"
proof -
  assume wf: "world_wf w"
  show ?thesis
  proof (cases "pending w")
    case None
    with wf show ?thesis by (simp add: open_done_def)
  next
    case (Some v)
    obtain r w1 where o: "indexedDB_open v w = (r, w1)" by (cases "indexedDB_open v w")
    with indexedDB_open_wf[OF wf, of v] have "world_wf w1" by simp
    with Some o show ?thesis
      by (cases r) (simp_all add: open_done_def world_wf_def)
  qed
qed

lemma writes_keep_wf:
  assumes "world_wf w"
  shows "world_wf (snd (setItem data w))"
    and "world_wf (snd (removeItem k w))"
    and "world_wf (snd (clear w))"
proof -
  show "world_wf (snd (setItem data w))"
  proof (cases "tx ReadWrite w")
    case (Inl e)
    with assms show ?thesis by (simp add: setItem_def)
  next
    case (Inr st)
    from tx_store[OF Inr] have s: "store w = Some (snd st)" by simp
    with assms have "wf_store (snd st)" by (simp add: world_wf_def)
    with request_wf[OF assms s, of "store_put data" "Put data" "fst st"] wf_store_put
    have "world_wf (snd (request (Put data) (store_put data) st w))" by auto
    with Inr show ?thesis by (simp add: setItem_def settle_world)
  qed
  show "world_wf (snd (removeItem k w))"
  proof (cases "tx ReadWrite w")
    case (Inl e)
    with assms show ?thesis by (simp add: removeItem_def)
  next
    case (Inr st)
    from tx_store[OF Inr] have s: "store w = Some (snd st)" by simp
    with assms have "wf_store (snd st)" by (simp add: world_wf_def)
    with request_wf[OF assms s, of "store_delete k" "Delete k" "fst st"] wf_store_delete
    have "world_wf (snd (request (Delete k) (store_delete k) st w))" by auto
    with Inr show ?thesis by (simp add: removeItem_def settle_world)
  qed
  show "world_wf (snd (clear w))"
  proof (cases "tx ReadWrite w")
    case (Inl e)
    with assms show ?thesis by (simp add: clear_def)
  next
    case (Inr st)
    from tx_store[OF Inr] have s: "store w = Some (snd st)" by simp
    from request_wf[OF assms s, of store_clear Clear "fst st"] wf_store_clear
    have "world_wf (snd (request Clear store_clear st w))" by auto
    with Inr show ?thesis by (simp add: clear_def settle_world)
  qed
qed

lemma bulk_keeps_wf:
  assumes "world_wf w"
  shows "world_wf (snd (bulkInsert items w))"
    and "world_wf (snd (bulkDelete ids w))"
proof -
  show "world_wf (snd (bulkInsert items w))"
  proof (cases "db w")
    case None
    with assms show ?thesis by (simp add: bulkInsert_def)
  next
    case (Some conn)
    show ?thesis
    proof (cases "transaction conn ReadWrite w")
      case (Inl e)
      with Some assms show ?thesis by (simp add: bulkInsert_def)
    next
      case (Inr st)
      from transaction_store[OF Inr] have s: "store w = Some (snd st)" by simp
      have "world_wf (snd (transact (map Put items) (map store_put items) (fst st, snd st) w))"
        by (rule transact_wf[OF assms s]) (auto intro: wf_store_put)
      with Some Inr show ?thesis by (auto simp: bulkInsert_def split: prod.splits)
    qed
  qed
  show "world_wf (snd (bulkDelete ids w))"
  proof (cases "db w")
    case None
    with assms show ?thesis by (simp add: bulkDelete_def)
  next
    case (Some conn)
    show ?thesis
    proof (cases "transaction conn ReadWrite w")
      case (Inl e)
      with Some assms show ?thesis by (simp add: bulkDelete_def)
    next
      case (Inr st)
      from transaction_store[OF Inr] have s: "store w = Some (snd st)" by simp
      have "world_wf (snd (transact (map Delete ids) (map store_delete ids) (fst st, snd st) w))"
        by (rule transact_wf[OF assms s]) (auto intro: wf_store_delete)
      with Some Inr show ?thesis by (auto simp: bulkDelete_def split: prod.splits)
    qed
  qed
qed

section \<open>Partial update\<close>

text \<open>
  C2: on an open handle with no engine failure, \<^verbatim>\<open>updateItem(id, updates)\<close> rejects
  with \<^verbatim>\<open>Error("Item not found!")\<close> when the store has no record at the id;
  otherwise it resolves, and the record then read at the id has that id,
  every property of the patch with the patch's value, and every other
  property as the existing record had it.
\<close>

theorem updateItem_merges_patch:
  assumes "db w = Some Open" and "store w = Some s" and "fates w = []"
  shows "(map_of (records s) k = None \<longrightarrow>
            fst (updateItem k updates w) = Rejected (Error ''Item not found!''))
       \<and> (\<forall>existing. map_of (records s) k = Some existing \<longrightarrow>
            fst (updateItem k updates w) = Resolved ()
          \<and> (\<exists>stored. fst (getItem k (snd (updateItem k updates w))) = Resolved (Some stored)
               \<and> item_id stored = Some k
               \<and> (\<forall>f v. props updates f = Some v \<longrightarrow> props stored f = Some v)
               \<and> (\<forall>f. props updates f = None \<longrightarrow> props stored f = props existing f)))"
proof (intro conjI impI allI)
  assume "map_of (records s) k = None"
  with assms show "fst (updateItem k updates w) = Rejected (Error ''Item not found!'')"
    by (simp add: updateItem_def getItem_ready)
next
  fix existing
  assume ex: "map_of (records s) k = Some existing"
  define w1 where "w1 = w\<lparr>fates := [], journal := journal w @ [(ReadOnly, [Get k])], store := Some s\<rparr>"
  define merged where "merged = \<lparr>item_id = Some k, props = props existing ++ props updates\<rparr>"
  have g: "getItem k w = (Resolved (Some existing), w1)"
    using assms ex by (simp add: getItem_ready w1_def)
  have r1: "db w1 = Some Open" "store w1 = Some s" "fates w1 = []"
    using assms by (simp_all add: w1_def)
  have "item_id merged = Some k" by (simp add: merged_def)
  from setItem_ready[OF r1 this] obtain s' where
    p: "setItem merged w1 =
          (Resolved k, w1\<lparr>fates := [], journal := journal w1 @ [(ReadWrite, [Put merged])], store := Some s'\<rparr>)"
    and rs: "records s' = upsert k merged (records s)"
    by blast
  define w2 where "w2 = w1\<lparr>fates := [], journal := journal w1 @ [(ReadWrite, [Put merged])], store := Some s'\<rparr>"
  have u: "updateItem k updates w = (Resolved (), w2)"
    using g p by (simp add: updateItem_def merged_def w2_def)
  then show "fst (updateItem k updates w) = Resolved ()" by simp
  have r2: "db w2 = Some Open" "store w2 = Some s'" "fates w2 = []"
    using r1 by (simp_all add: w2_def)
  have "fst (getItem k w2) = Resolved (Some merged)"
    by (simp add: getItem_ready[OF r2] rs map_of_upsert_same)
  moreover have "item_id merged = Some k" by (simp add: merged_def)
  moreover have "\<forall>f v. props updates f = Some v \<longrightarrow> props merged f = Some v"
    by (simp add: merged_def)
  moreover have "\<forall>f. props updates f = None \<longrightarrow> props merged f = props existing f"
    by (simp add: merged_def map_add_def)
  ultimately show "\<exists>stored. fst (getItem k (snd (updateItem k updates w))) = Resolved (Some stored)
               \<and> item_id stored = Some k
               \<and> (\<forall>f v. props updates f = Some v \<longrightarrow> props stored f = Some v)
               \<and> (\<forall>f. props updates f = None \<longrightarrow> props stored f = props existing f)"
    using u by auto
qed

theorem updateItem_merges_patch_witness:
  "db (opened one_person) = Some Open \<and> store (opened one_person) = Some one_person
   \<and> fates (opened one_person) = []
   \<and> map_of (records one_person) 999 = None
   \<and> fst (updateItem 999 (age_patch 2) (opened one_person)) = Rejected (Error ''Item not found!'')
   \<and> map_of (records one_person) 1 = Some (person 1 ''A'' 1)
   \<and> fst (updateItem 1 (age_patch 2) (opened one_person)) = Resolved ()
   \<and> (\<exists>stored. fst (getItem 1 (snd (updateItem 1 (age_patch 2) (opened one_person)))) = Resolved (Some stored)
         \<and> item_id stored = Some 1
         \<and> props stored ''age'' = Some (VNum 2)
         \<and> props stored ''name'' = Some (VStr ''A''))"
proof -
  have r: "db (opened one_person) = Some Open" "store (opened one_person) = Some one_person"
    "fates (opened one_person) = []"
    by (simp_all add: opened_def)
  have absent: "map_of (records one_person) 999 = None"
    and present: "map_of (records one_person) 1 = Some (person 1 ''A'' 1)"
    by (simp_all add: one_person_def)
  have patch: "props (age_patch 2) ''age'' = Some (VNum 2)" "props (age_patch 2) ''name'' = None"
    by (simp_all add: age_patch_def)
  have old: "props (person 1 ''A'' 1) ''name'' = Some (VStr ''A'')"
    by (simp add: person_def)
  note m = updateItem_merges_patch[OF r]
  from m[of 999 "age_patch 2"] absent
  have a: "fst (updateItem 999 (age_patch 2) (opened one_person)) = Rejected (Error ''Item not found!'')"
    by blast
  from m[of 1 "age_patch 2"] present
  have b: "fst (updateItem 1 (age_patch 2) (opened one_person)) = Resolved ()
          \<and> (\<exists>stored. fst (getItem 1 (snd (updateItem 1 (age_patch 2) (opened one_person)))) = Resolved (Some stored)
               \<and> item_id stored = Some 1
               \<and> (\<forall>f v. props (age_patch 2) f = Some v \<longrightarrow> props stored f = Some v)
               \<and> (\<forall>f. props (age_patch 2) f = None \<longrightarrow> props stored f = props (person 1 ''A'' 1) f))"
    by blast
  then obtain stored where
    st: "fst (getItem 1 (snd (updateItem 1 (age_patch 2) (opened one_person)))) = Resolved (Some stored)"
      "item_id stored = Some 1"
      "\<forall>f v. props (age_patch 2) f = Some v \<longrightarrow> props stored f = Some v"
      "\<forall>f. props (age_patch 2) f = None \<longrightarrow> props stored f = props (person 1 ''A'' 1) f"
    by blast
  from st(3) patch(1) have age: "props stored ''age'' = Some (VNum 2)" by blast
  from st(4) patch(2) old have name: "props stored ''name'' = Some (VStr ''A'')" by simp
  from r absent present a b st(1,2) age name show ?thesis by blast
qed

text \<open>
  C10: whenever \<^verbatim>\<open>updateItem\<close> rejects with its not-found error, the store is as
  it was before the call, and the call has begun one read-only transaction
  with the one \<^verbatim>\<open>get\<close> request and nothing else.
\<close>

theorem updateItem_not_found_writes_nothing:
  assumes "fst (updateItem k updates w) = Rejected (Error ''Item not found!'')"
  shows "store (snd (updateItem k updates w)) = store w
       \<and> journal (snd (updateItem k updates w)) = journal w @ [(ReadOnly, [Get k])]"
proof -
  obtain p w1 where g: "getItem k w = (p, w1)" by (cases "getItem k w")
  show ?thesis
  proof (cases p)
    case (Resolved existing)
    show ?thesis
    proof (cases existing)
      case None
      with g Resolved have "getItem k w = (Resolved None, w1)" by simp
      from getItem_None_world[OF this] g Resolved None show ?thesis
        by (simp add: updateItem_def)
    next
      case (Some e)
      obtain q w2 where s: "setItem \<lparr>item_id = Some k, props = props e ++ props updates\<rparr> w1 = (q, w2)"
        by (cases "setItem \<lparr>item_id = Some k, props = props e ++ props updates\<rparr> w1")
      from setItem_not_Error[of "\<lparr>item_id = Some k, props = props e ++ props updates\<rparr>" w1 "''Item not found!''"] s
      have "q \<noteq> Rejected (Error ''Item not found!'')" by simp
      with assms g Resolved Some s show ?thesis
        by (cases q) (simp_all add: updateItem_def)
    qed
  next
    case (Rejected e)
    from getItem_not_Error[of k w "''Item not found!''"] g Rejected assms show ?thesis
      by (simp add: updateItem_def)
  next
    case Pending
    with assms g show ?thesis by (simp add: updateItem_def)
  qed
qed

theorem updateItem_not_found_writes_nothing_witness:
  "fst (updateItem 999 (age_patch 2) (opened one_person)) = Rejected (Error ''Item not found!'')
   \<and> store (snd (updateItem 999 (age_patch 2) (opened one_person))) = store (opened one_person)
   \<and> journal (snd (updateItem 999 (age_patch 2) (opened one_person)))
       = journal (opened one_person) @ [(ReadOnly, [Get 999])]"
proof -
  have r: "db (opened one_person) = Some Open" "store (opened one_person) = Some one_person"
    "fates (opened one_person) = []"
    by (simp_all add: opened_def)
  have absent: "map_of (records one_person) 999 = None"
    by (simp add: one_person_def)
  have h: "fst (updateItem 999 (age_patch 2) (opened one_person)) = Rejected (Error ''Item not found!'')"
    by (simp add: updateItem_def getItem_ready[OF r] absent)
  from h updateItem_not_found_writes_nothing[OF h] show ?thesis by simp
qed

section \<open>Deleting and looking up\<close>

text \<open>
  C8: on a usable database with no engine failure, \<^verbatim>\<open>removeItem(x)\<close> resolves
  whether or not a record is stored at \<open>x\<close>, it leaves the store unchanged when
  none is, a second \<^verbatim>\<open>removeItem(x)\<close> resolves as well and changes nothing, and
  after either call \<^verbatim>\<open>hasItem(x)\<close> resolves to false; the same holds of the
  helper that opens the database in every operation, where the lookup
  \<^verbatim>\<open>getItem(x)\<close> resolves to \<^verbatim>\<open>undefined\<close>.
\<close>

theorem removeItem_idempotent:
  assumes "db w = Some Open" and "store w = Some s" and "fates w = []"
    and "0 < v" and "version w \<le> v"
  shows "(let w1 = snd (removeItem x w); w2 = snd (removeItem x w1) in
            fst (removeItem x w) = Resolved () \<and> fst (removeItem x w1) = Resolved ()
          \<and> fst (hasItem x w1) = Resolved False \<and> fst (hasItem x w2) = Resolved False
          \<and> (map_of (records s) x = None \<longrightarrow> store w1 = store w) \<and> store w2 = store w1)
       \<and> (let w1 = snd (removeItem_v1 v x w); w2 = snd (removeItem_v1 v x w1) in
            fst (removeItem_v1 v x w) = Resolved () \<and> fst (removeItem_v1 v x w1) = Resolved ()
          \<and> fst (getItem_v1 v x w1) = Resolved None \<and> fst (getItem_v1 v x w2) = Resolved None
          \<and> (map_of (records s) x = None \<longrightarrow> store w1 = store w) \<and> store w2 = store w1)"
proof -
  define s1 where "s1 = s\<lparr>records := filter (\<lambda>kv. fst kv \<noteq> x) (records s)\<rparr>"
  have gone: "map_of (records s1) x = None"
    by (simp add: s1_def map_of_removed)
  have again: "s1\<lparr>records := filter (\<lambda>kv. fst kv \<noteq> x) (records s1)\<rparr> = s1"
    by (simp add: s1_def)
  have noop: "map_of (records s) x = None \<longrightarrow> s1 = s"
    by (simp add: s1_def remove_absent)
  define w1 where "w1 = w\<lparr>fates := [], journal := journal w @ [(ReadWrite, [Delete x])], store := Some s1\<rparr>"
  have a: "removeItem x w = (Resolved (), w1)"
    using assms by (simp add: removeItem_ready w1_def s1_def)
  have r1: "db w1 = Some Open" "store w1 = Some s1" "fates w1 = []"
    using assms by (simp_all add: w1_def)
  define w2 where "w2 = w1\<lparr>fates := [], journal := journal w1 @ [(ReadWrite, [Delete x])], store := Some s1\<rparr>"
  have b: "removeItem x w1 = (Resolved (), w2)"
    by (simp add: removeItem_ready[OF r1] w2_def again)
  have r2: "db w2 = Some Open" "store w2 = Some s1" "fates w2 = []"
    using r1 by (simp_all add: w2_def)
  have h: "fst (hasItem x w1) = Resolved False" "fst (hasItem x w2) = Resolved False"
    by (simp_all add: hasItem_ready[OF r1] hasItem_ready[OF r2] gone truthy_def)
  have first: "let w1 = snd (removeItem x w); w2 = snd (removeItem x w1) in
            fst (removeItem x w) = Resolved () \<and> fst (removeItem x w1) = Resolved ()
          \<and> fst (hasItem x w1) = Resolved False \<and> fst (hasItem x w2) = Resolved False
          \<and> (map_of (records s) x = None \<longrightarrow> store w1 = store w) \<and> store w2 = store w1"
    using a b h r1 r2 noop assms(2) by (simp add: Let_def)
  define u1 where "u1 = w\<lparr>version := v, fates := [], journal := journal w @ [(ReadWrite, [Delete x])], store := Some s1\<rparr>"
  have c: "removeItem_v1 v x w = (Resolved (), u1)"
    using assms by (simp add: removeItem_v1_usable u1_def s1_def)
  have q1: "0 < v" "version u1 \<le> v" "store u1 = Some s1" "fates u1 = []"
    using assms by (simp_all add: u1_def)
  define u2 where "u2 = u1\<lparr>version := v, fates := [], journal := journal u1 @ [(ReadWrite, [Delete x])], store := Some s1\<rparr>"
  have d: "removeItem_v1 v x u1 = (Resolved (), u2)"
    by (simp add: removeItem_v1_usable[OF q1] u2_def again)
  have q2: "0 < v" "version u2 \<le> v" "store u2 = Some s1" "fates u2 = []"
    using q1 by (simp_all add: u2_def)
  have g: "fst (getItem_v1 v x u1) = Resolved None" "fst (getItem_v1 v x u2) = Resolved None"
    by (simp_all add: getItem_v1_usable[OF q1] getItem_v1_usable[OF q2] gone)
  have second: "let w1 = snd (removeItem_v1 v x w); w2 = snd (removeItem_v1 v x w1) in
            fst (removeItem_v1 v x w) = Resolved () \<and> fst (removeItem_v1 v x w1) = Resolved ()
          \<and> fst (getItem_v1 v x w1) = Resolved None \<and> fst (getItem_v1 v x w2) = Resolved None
          \<and> (map_of (records s) x = None \<longrightarrow> store w1 = store w) \<and> store w2 = store w1"
    using c d g q1 q2 noop assms(2) by (simp add: Let_def)
  from first second show ?thesis by blast
qed

theorem removeItem_idempotent_witness:
  "db (opened one_person) = Some Open \<and> store (opened one_person) = Some one_person
   \<and> fates (opened one_person) = [] \<and> (0::nat) < 1 \<and> version (opened one_person) \<le> 1
   \<and> (let w1 = snd (removeItem 7 (opened one_person)); w2 = snd (removeItem 7 w1) in
            fst (removeItem 7 (opened one_person)) = Resolved () \<and> fst (removeItem 7 w1) = Resolved ()
          \<and> fst (hasItem 7 w1) = Resolved False \<and> fst (hasItem 7 w2) = Resolved False
          \<and> (map_of (records one_person) 7 = None \<longrightarrow> store w1 = store (opened one_person)) \<and> store w2 = store w1)
   \<and> (let w1 = snd (removeItem_v1 1 7 (opened one_person)); w2 = snd (removeItem_v1 1 7 w1) in
            fst (removeItem_v1 1 7 (opened one_person)) = Resolved () \<and> fst (removeItem_v1 1 7 w1) = Resolved ()
          \<and> fst (getItem_v1 1 7 w1) = Resolved None \<and> fst (getItem_v1 1 7 w2) = Resolved None
          \<and> (map_of (records one_person) 7 = None \<longrightarrow> store w1 = store (opened one_person)) \<and> store w2 = store w1)
   \<and> map_of (records one_person) 7 = None"
proof -
  have r: "db (opened one_person) = Some Open" "store (opened one_person) = Some one_person"
    "fates (opened one_person) = []" "(0::nat) < 1" "version (opened one_person) \<le> 1"
    by (simp_all add: opened_def)
  have absent: "map_of (records one_person) 7 = None"
    by (simp add: one_person_def)
  from r absent removeItem_idempotent[OF r, of 7] show ?thesis by blast
qed

text \<open>
  C9: in every world, \<^verbatim>\<open>hasItem(id)\<close> resolves to true exactly when \<^verbatim>\<open>getItem(id)\<close>
  resolves to a record, and to false exactly when \<^verbatim>\<open>getItem(id)\<close> resolves to
  \<^verbatim>\<open>undefined\<close>.
\<close>

theorem hasItem_iff_getItem:
  "(fst (hasItem k w) = Resolved True) = (\<exists>r. fst (getItem k w) = Resolved (Some r))
   \<and> (fst (hasItem k w) = Resolved False) = (fst (getItem k w) = Resolved None)"
  by (auto simp: hasItem_def getItem_def settle_def truthy_def
           split: sum.splits event.splits option.splits)


section \<open>Upsert keeps ids unique\<close>

lemma setItems_ready:
  assumes "db w = Some Open" "store w = Some s" "wf_store s" "fates w = []"
    and "list_all (\<lambda>r. item_id r = Some k) rs"
  shows "\<exists>s'. db (fold (\<lambda>data w. snd (setItem data w)) rs w) = Some Open
            \<and> store (fold (\<lambda>data w. snd (setItem data w)) rs w) = Some s'
            \<and> wf_store s'
            \<and> fates (fold (\<lambda>data w. snd (setItem data w)) rs w) = []
            \<and> (rs \<noteq> [] \<longrightarrow> map_of (records s') k = Some (last rs))"
  using assms
proof (induction rs arbitrary: w s)
  case Nil
  then show ?case by simp
next
  case (Cons r rs)
  from Cons.prems(5) have rk: "item_id r = Some k" and rest: "list_all (\<lambda>r. item_id r = Some k) rs"
    by simp_all
  from store_put_keyed[OF rk, of s] obtain s1 where
    p: "store_put r s = Inr (k, s1)" and rec: "records s1 = upsert k r (records s)"
    by blast
  define w1 where "w1 = w\<lparr>fates := [], journal := journal w @ [(ReadWrite, [Put r])], store := Some s1\<rparr>"
  have step: "setItem r w = (Resolved k, w1)"
    using setItem_commit[OF Cons.prems(1,2,4) p] by (simp add: w1_def)
  have r1: "db w1 = Some Open" "store w1 = Some s1" "fates w1 = []"
    using Cons.prems by (simp_all add: w1_def)
  have wf1: "wf_store s1"
    by (rule wf_store_put[OF Cons.prems(3) p])
  from Cons.IH[OF r1(1,2) wf1 r1(3) rest] obtain s' where
    fin: "db (fold (\<lambda>data w. snd (setItem data w)) rs w1) = Some Open"
      "store (fold (\<lambda>data w. snd (setItem data w)) rs w1) = Some s'"
      "wf_store s'"
      "fates (fold (\<lambda>data w. snd (setItem data w)) rs w1) = []"
      "rs \<noteq> [] \<longrightarrow> map_of (records s') k = Some (last rs)"
    by blast
  have "map_of (records s') k = Some (last (r # rs))"
  proof (cases "rs = []")
    case True
    with fin(2) r1(2) have "s' = s1" by simp
    with rec True show ?thesis by (simp add: map_of_upsert_same)
  next
    case False
    with fin(5) show ?thesis by simp
  qed
  with fin step show ?case by simp
qed

lemma setItems_v1_usable:
  assumes "0 < v" "version w \<le> v" "store w = Some s" "wf_store s" "fates w = []"
    and "list_all (\<lambda>r. item_id r = Some k) rs"
  shows "\<exists>s'. version (fold (\<lambda>data w. snd (setItem_v1 v data w)) rs w) \<le> v
            \<and> store (fold (\<lambda>data w. snd (setItem_v1 v data w)) rs w) = Some s'
            \<and> wf_store s'
            \<and> fates (fold (\<lambda>data w. snd (setItem_v1 v data w)) rs w) = []
            \<and> (rs \<noteq> [] \<longrightarrow> map_of (records s') k = Some (last rs))"
  using assms
proof (induction rs arbitrary: w s)
  case Nil
  then show ?case by simp
next
  case (Cons r rs)
  from Cons.prems(6) have rk: "item_id r = Some k" and rest: "list_all (\<lambda>r. item_id r = Some k) rs"
    by simp_all
  from store_put_keyed[OF rk, of s] obtain s1 where
    p: "store_put r s = Inr (k, s1)" and rec: "records s1 = upsert k r (records s)"
    by blast
  define w1 where
    "w1 = w\<lparr>version := v, fates := [], journal := journal w @ [(ReadWrite, [Put r])], store := Some s1\<rparr>"
  have step: "setItem_v1 v r w = (Resolved k, w1)"
    using setItem_v1_commit[OF Cons.prems(1,2,3,5) p] by (simp add: w1_def)
  have r1: "version w1 \<le> v" "store w1 = Some s1" "fates w1 = []"
    by (simp_all add: w1_def)
  have wf1: "wf_store s1"
    by (rule wf_store_put[OF Cons.prems(4) p])
  from Cons.IH[OF Cons.prems(1) r1(1,2) wf1 r1(3) rest] obtain s' where
    fin: "version (fold (\<lambda>data w. snd (setItem_v1 v data w)) rs w1) \<le> v"
      "store (fold (\<lambda>data w. snd (setItem_v1 v data w)) rs w1) = Some s'"
      "wf_store s'"
      "fates (fold (\<lambda>data w. snd (setItem_v1 v data w)) rs w1) = []"
      "rs \<noteq> [] \<longrightarrow> map_of (records s') k = Some (last rs)"
    by blast
  have "map_of (records s') k = Some (last (r # rs))"
  proof (cases "rs = []")
    case True
    with fin(2) r1(2) have "s' = s1" by simp
    with rec True show ?thesis by (simp add: map_of_upsert_same)
  next
    case False
    with fin(5) show ?thesis by simp
  qed
  with fin step show ?case by simp
qed

text \<open>
  C3: on a usable database with well-formed store and no engine failure, after
  a non-empty sequence of awaited \<^verbatim>\<open>setItem\<close> calls whose records all carry the id
  \<open>k\<close>, \<^verbatim>\<open>getAllItems\<close> resolves to a list in which exactly one record has the id
  \<open>k\<close>, and that record is the last one written; this holds of both classes.
\<close>

theorem setItem_same_id_one_record:
  assumes "db w = Some Open" and "store w = Some s" and "wf_store s" and "fates w = []"
    and "0 < v" and "version w \<le> v"
    and "rs \<noteq> []" and "list_all (\<lambda>r. item_id r = Some k) rs"
  shows "(\<exists>xs. fst (getAllItems (fold (\<lambda>data w. snd (setItem data w)) rs w)) = Resolved xs
             \<and> filter (\<lambda>r. item_id r = Some k) xs = [last rs])
       \<and> (\<exists>xs. fst (getAllItems_v1 v (fold (\<lambda>data w. snd (setItem_v1 v data w)) rs w)) = Resolved xs
             \<and> filter (\<lambda>r. item_id r = Some k) xs = [last rs])"
proof
  from setItems_ready[OF assms(1-4,8)] assms(7) obtain s' where
    fin: "db (fold (\<lambda>data w. snd (setItem data w)) rs w) = Some Open"
      "store (fold (\<lambda>data w. snd (setItem data w)) rs w) = Some s'"
      "fates (fold (\<lambda>data w. snd (setItem data w)) rs w) = []"
    and wf: "wf_store s'" and at: "map_of (records s') k = Some (last rs)"
    by blast
  show "\<exists>xs. fst (getAllItems (fold (\<lambda>data w. snd (setItem data w)) rs w)) = Resolved xs
             \<and> filter (\<lambda>r. item_id r = Some k) xs = [last rs]"
    by (simp add: getAllItems_ready[OF fin] one_record_with_id[OF wf at])
next
  from setItems_v1_usable[OF assms(5,6,2,3,4,8)] assms(7) obtain s' where
    fin: "version (fold (\<lambda>data w. snd (setItem_v1 v data w)) rs w) \<le> v"
      "store (fold (\<lambda>data w. snd (setItem_v1 v data w)) rs w) = Some s'"
      "fates (fold (\<lambda>data w. snd (setItem_v1 v data w)) rs w) = []"
    and wf: "wf_store s'" and at: "map_of (records s') k = Some (last rs)"
    by blast
  show "\<exists>xs. fst (getAllItems_v1 v (fold (\<lambda>data w. snd (setItem_v1 v data w)) rs w)) = Resolved xs
             \<and> filter (\<lambda>r. item_id r = Some k) xs = [last rs]"
    by (simp add: getAllItems_v1_usable[OF assms(5) fin] one_record_with_id[OF wf at])
qed

theorem setItem_same_id_one_record_witness:
  "db (opened one_person) = Some Open \<and> store (opened one_person) = Some one_person
   \<and> wf_store one_person \<and> fates (opened one_person) = []
   \<and> (0::nat) < 1 \<and> version (opened one_person) \<le> 1
   \<and> [person 1 ''B'' 5, person 1 ''C'' 9] \<noteq> []
   \<and> list_all (\<lambda>r. item_id r = Some 1) [person 1 ''B'' 5, person 1 ''C'' 9]
   \<and> (\<exists>xs. fst (getAllItems (fold (\<lambda>data w. snd (setItem data w))
                      [person 1 ''B'' 5, person 1 ''C'' 9] (opened one_person))) = Resolved xs
          \<and> filter (\<lambda>r. item_id r = Some 1) xs = [last [person 1 ''B'' 5, person 1 ''C'' 9]])
   \<and> (\<exists>xs. fst (getAllItems_v1 1 (fold (\<lambda>data w. snd (setItem_v1 1 data w))
                      [person 1 ''B'' 5, person 1 ''C'' 9] (opened one_person))) = Resolved xs
          \<and> filter (\<lambda>r. item_id r = Some 1) xs = [last [person 1 ''B'' 5, person 1 ''C'' 9]])"
proof -
  have r: "db (opened one_person) = Some Open" "store (opened one_person) = Some one_person"
    by (simp_all add: opened_def)
  have wf: "wf_store one_person"
    by (simp add: wf_store_def one_person_def person_def)
  have f: "fates (opened one_person) = []"
    by (simp add: opened_def)
  have v: "(0::nat) < 1" "version (opened one_person) \<le> 1"
    by (simp_all add: opened_def)
  have ne: "[person 1 ''B'' 5, person 1 ''C'' 9] \<noteq> []"
    by simp
  have same: "list_all (\<lambda>r. item_id r = Some 1) [person 1 ''B'' 5, person 1 ''C'' 9]"
    by (simp add: person_def)
  from r wf f v ne same setItem_same_id_one_record[OF r wf f v ne same] show ?thesis by blast
qed

section \<open>Range and index queries\<close>

text \<open>
  C7: on an open handle with well-formed store and no engine failure,
  \<^verbatim>\<open>getItemsByRange(startId, endId)\<close> resolves to the stored records of exactly
  the keys \<open>k\<close> with \<open>startId \<le> k \<le> endId\<close>, each carrying its key as id, in
  strictly ascending order of id; with ids 1 to 5 stored, the range 2 to 4
  gives the records 2, 3 and 4.
\<close>

theorem getItemsByRange_inclusive:
  assumes "db w = Some Open" and "store w = Some s" and "wf_store s" and "fates w = []"
  shows "\<exists>xs ids. fst (getItemsByRange lo hi w) = Resolved xs
           \<and> map item_id xs = map Some ids
           \<and> sorted_wrt (<) ids
           \<and> set ids = {k \<in> fst ` set (records s). lo \<le> k \<and> k \<le> hi}
           \<and> map Some xs = map (map_of (records s)) ids"
proof -
  define sel where "sel = filter (\<lambda>kv. lo \<le> fst kv \<and> fst kv \<le> hi) (records s)"
  from assms(3) have sorted: "sorted_wrt (<) (map fst (records s))"
    and ids: "list_all (\<lambda>kv. item_id (snd kv) = Some (fst kv)) (records s)"
    by (simp_all add: wf_store_def)
  from sorted have dist: "distinct (map fst (records s))"
    by (simp add: strict_sorted_iff)
  have res: "fst (getItemsByRange lo hi w) = Resolved (map snd sel)"
    by (simp add: getItemsByRange_ready[OF assms(1,2,4)] in_range_by_key[OF ids] sel_def)
  have a: "map item_id (map snd sel) = map Some (map fst sel)"
    using ids by (auto simp: sel_def list_all_iff)
  have "map fst sel = filter (\<lambda>k. lo \<le> k \<and> k \<le> hi) (map fst (records s))"
    by (simp add: sel_def filter_map comp_def)
  with sorted have b: "sorted_wrt (<) (map fst sel)"
    by (simp add: sorted_wrt_filter)
  have c: "set (map fst sel) = {k \<in> fst ` set (records s). lo \<le> k \<and> k \<le> hi}"
    by (auto simp: sel_def)
  have d: "map Some (map snd sel) = map (map_of (records s)) (map fst sel)"
    using dist by (auto simp: sel_def)
  from res a b c d show ?thesis by blast
qed

theorem getItemsByRange_inclusive_witness:
  "db (opened five) = Some Open \<and> store (opened five) = Some five \<and> wf_store five
   \<and> fates (opened five) = []
   \<and> (\<exists>xs ids. fst (getItemsByRange 2 4 (opened five)) = Resolved xs
           \<and> map item_id xs = map Some ids
           \<and> sorted_wrt (<) ids
           \<and> set ids = {k \<in> fst ` set (records five). 2 \<le> k \<and> k \<le> 4}
           \<and> map Some xs = map (map_of (records five)) ids)
   \<and> fst (getItemsByRange 2 4 (opened five))
       = Resolved [person 2 ''B'' 2, person 3 ''C'' 3, person 4 ''D'' 4]"
proof -
  have r: "db (opened five) = Some Open" "store (opened five) = Some five"
    by (simp_all add: opened_def)
  have f: "fates (opened five) = []"
    by (simp add: opened_def)
  have wf: "wf_store five"
    by (simp add: wf_store_def five_def person_def)
  have run: "fst (getItemsByRange 2 4 (opened five))
       = Resolved [person 2 ''B'' 2, person 3 ''C'' 3, person 4 ''D'' 4]"
  proof -
    have "filter (in_range 2 4) (map snd (records five))
            = [person 2 ''B'' 2, person 3 ''C'' 3, person 4 ''D'' 4]"
      by (simp add: five_def in_range_def person_def)
    then show ?thesis
      by (simp add: getItemsByRange_ready[OF r f])
  qed
  from r f wf run getItemsByRange_inclusive[OF r wf f, of 2 4] show ?thesis by blast
qed

text \<open>
  C6, as stated, fails at a declared index and a value that is not a key: the
  store has the index \<^verbatim>\<open>name_idx\<close>, and
  \<^verbatim>\<open>getByIndex("name_idx", true)\<close> and \<^verbatim>\<open>getByIndex("name_idx", null)\<close> are rejected
  with DataError instead of resolving.
\<close>

theorem getByIndex_non_key_counterexample:
  "map_of (indexes by_name) ''name_idx'' = Some ''name''
   \<and> fst (getByIndex ''name_idx'' (VBool True) (opened by_name)) = Rejected (DOMException DataError)
   \<and> fst (getByIndex ''name_idx'' VNull (opened by_name)) = Rejected (DOMException DataError)"
proof -
  have r: "db (opened by_name) = Some Open" "store (opened by_name) = Some by_name"
    by (simp_all add: opened_def)
  have yes: "map_of (indexes by_name) ''name_idx'' = Some ''name''"
    by (simp add: by_name_def)
  have "\<not> valid_key (VBool True)" "\<not> valid_key VNull"
    by simp_all
  then have "fst (getByIndex ''name_idx'' (VBool True) (opened by_name)) = Rejected (DOMException DataError)"
    "fst (getByIndex ''name_idx'' VNull (opened by_name)) = Rejected (DOMException DataError)"
    by (simp_all add: getByIndex_not_a_key[OF r yes])
  with yes show ?thesis by blast
qed

text \<open>
  C6, amended: on an open handle, \<^verbatim>\<open>getByIndex(indexName, value)\<close> rejects with the
  NotFoundError DOMException for every value when the store has no index of
  that name, leaving the store as it was and the read-only transaction it
  began without a request. For an index the store has: a value that is a key
  (a number or a string), with no engine failure, resolves to a stored record
  whose property at the index's key path is the value, and to \<^verbatim>\<open>undefined\<close>
  exactly when no stored record has one; a value that is not a key is
  rejected with DataError.
\<close>

theorem getByIndex_needs_declared_index:
  assumes "db w = Some Open" and "store w = Some s"
  shows "(map_of (indexes s) indexName = None \<longrightarrow>
            fst (getByIndex indexName v w) = Rejected (DOMException NotFoundError)
          \<and> store (snd (getByIndex indexName v w)) = store w
          \<and> journal (snd (getByIndex indexName v w)) = journal w @ [(ReadOnly, [])])
       \<and> (\<forall>keyPath. map_of (indexes s) indexName = Some keyPath \<and> valid_key v \<and> fates w = [] \<longrightarrow>
            (\<exists>result. fst (getByIndex indexName v w) = Resolved result
               \<and> (result = None) = (\<forall>r\<in>set (map snd (records s)). property r keyPath \<noteq> Some v)
               \<and> (\<forall>r. result = Some r \<longrightarrow>
                     r \<in> set (map snd (records s)) \<and> property r keyPath = Some v)))
       \<and> (\<forall>keyPath. map_of (indexes s) indexName = Some keyPath \<and> \<not> valid_key v \<longrightarrow>
            fst (getByIndex indexName v w) = Rejected (DOMException DataError)
          \<and> store (snd (getByIndex indexName v w)) = store w
          \<and> journal (snd (getByIndex indexName v w)) = journal w @ [(ReadOnly, [])])"
proof (intro conjI impI allI)
  assume no: "map_of (indexes s) indexName = None"
  note u = getByIndex_undeclared[OF assms no]
  show "fst (getByIndex indexName v w) = Rejected (DOMException NotFoundError)"
    by (simp add: u)
  show "store (snd (getByIndex indexName v w)) = store w"
    by (simp add: u empty_transaction[OF assms(2)])
  show "journal (snd (getByIndex indexName v w)) = journal w @ [(ReadOnly, [])]"
    by (simp add: u empty_transaction[OF assms(2)])
next
  fix keyPath
  assume h: "map_of (indexes s) indexName = Some keyPath \<and> valid_key v \<and> fates w = []"
  define result where "result = find (\<lambda>r. property r keyPath = Some v) (map snd (records s))"
  from h assms have "fst (getByIndex indexName v w) = Resolved result"
    by (simp add: getByIndex_declared result_def)
  moreover have "(result = None) = (\<forall>r\<in>set (map snd (records s)). property r keyPath \<noteq> Some v)"
    unfolding result_def find_None_iff by blast
  moreover have "\<forall>r. result = Some r \<longrightarrow>
                     r \<in> set (map snd (records s)) \<and> property r keyPath = Some v"
    unfolding result_def using find_SomeD by fast
  ultimately show "\<exists>result. fst (getByIndex indexName v w) = Resolved result
               \<and> (result = None) = (\<forall>r\<in>set (map snd (records s)). property r keyPath \<noteq> Some v)
               \<and> (\<forall>r. result = Some r \<longrightarrow>
                     r \<in> set (map snd (records s)) \<and> property r keyPath = Some v)"
    by blast
next
  fix keyPath
  assume h: "map_of (indexes s) indexName = Some keyPath \<and> \<not> valid_key v"
  then have yes: "map_of (indexes s) indexName = Some keyPath" and bad: "\<not> valid_key v"
    by simp_all
  note u = getByIndex_not_a_key[OF assms yes bad]
  show "fst (getByIndex indexName v w) = Rejected (DOMException DataError)"
    by (simp add: u)
  show "store (snd (getByIndex indexName v w)) = store w"
    by (simp add: u empty_transaction[OF assms(2)])
  show "journal (snd (getByIndex indexName v w)) = journal w @ [(ReadOnly, [])]"
    by (simp add: u empty_transaction[OF assms(2)])
qed

theorem getByIndex_needs_declared_index_witness:
  "db (opened by_name) = Some Open \<and> store (opened by_name) = Some by_name
   \<and> map_of (indexes by_name) ''age_idx'' = None
   \<and> fst (getByIndex ''age_idx'' (VNum 2) (opened by_name)) = Rejected (DOMException NotFoundError)
   \<and> store (snd (getByIndex ''age_idx'' (VNum 2) (opened by_name))) = store (opened by_name)
   \<and> journal (snd (getByIndex ''age_idx'' (VNum 2) (opened by_name)))
       = journal (opened by_name) @ [(ReadOnly, [])]
   \<and> map_of (indexes by_name) ''name_idx'' = Some ''name'' \<and> valid_key (VStr ''B'')
   \<and> fates (opened by_name) = []
   \<and> (\<exists>result. fst (getByIndex ''name_idx'' (VStr ''B'') (opened by_name)) = Resolved result
               \<and> (result = None) = (\<forall>r\<in>set (map snd (records by_name)). property r ''name'' \<noteq> Some (VStr ''B''))
               \<and> (\<forall>r. result = Some r \<longrightarrow>
                     r \<in> set (map snd (records by_name)) \<and> property r ''name'' = Some (VStr ''B'')))
   \<and> fst (getByIndex ''name_idx'' (VStr ''B'') (opened by_name)) = Resolved (Some (person 2 ''B'' 2))
   \<and> fst (getByIndex ''name_idx'' (VStr ''Z'') (opened by_name)) = Resolved None
   \<and> \<not> valid_key VUndefined
   \<and> fst (getByIndex ''name_idx'' VUndefined (opened by_name)) = Rejected (DOMException DataError)
   \<and> store (snd (getByIndex ''name_idx'' VUndefined (opened by_name))) = store (opened by_name)
   \<and> journal (snd (getByIndex ''name_idx'' VUndefined (opened by_name)))
       = journal (opened by_name) @ [(ReadOnly, [])]"
proof -
  have r: "db (opened by_name) = Some Open" "store (opened by_name) = Some by_name"
    by (simp_all add: opened_def)
  have f: "fates (opened by_name) = []"
    by (simp add: opened_def)
  have no: "map_of (indexes by_name) ''age_idx'' = None"
    and yes: "map_of (indexes by_name) ''name_idx'' = Some ''name''"
    by (simp_all add: by_name_def)
  have key: "valid_key (VStr ''B'')" "valid_key (VStr ''Z'')"
    by simp_all
  have bad: "\<not> valid_key VUndefined"
    by simp
  have hit: "find (\<lambda>r. property r ''name'' = Some (VStr ''B'')) (map snd (records by_name))
               = Some (person 2 ''B'' 2)"
    and miss: "find (\<lambda>r. property r ''name'' = Some (VStr ''Z'')) (map snd (records by_name)) = None"
    by (simp_all add: by_name_def person_def property_def)
  have run: "fst (getByIndex ''name_idx'' (VStr ''B'') (opened by_name)) = Resolved (Some (person 2 ''B'' 2))"
    "fst (getByIndex ''name_idx'' (VStr ''Z'') (opened by_name)) = Resolved None"
    by (simp_all add: getByIndex_declared[OF r f yes] hit miss)
  note t = getByIndex_needs_declared_index[OF r]
  from t[of "''age_idx''" "VNum 2"] no
  have a: "fst (getByIndex ''age_idx'' (VNum 2) (opened by_name)) = Rejected (DOMException NotFoundError)
     \<and> store (snd (getByIndex ''age_idx'' (VNum 2) (opened by_name))) = store (opened by_name)
     \<and> journal (snd (getByIndex ''age_idx'' (VNum 2) (opened by_name)))
         = journal (opened by_name) @ [(ReadOnly, [])]"
    by blast
  from t[of "''name_idx''" "VStr ''B''"] yes key f
  have b: "\<exists>result. fst (getByIndex ''name_idx'' (VStr ''B'') (opened by_name)) = Resolved result
               \<and> (result = None) = (\<forall>r\<in>set (map snd (records by_name)). property r ''name'' \<noteq> Some (VStr ''B''))
               \<and> (\<forall>r. result = Some r \<longrightarrow>
                     r \<in> set (map snd (records by_name)) \<and> property r ''name'' = Some (VStr ''B''))"
    by blast
  from t[of "''name_idx''" VUndefined] yes bad
  have c: "fst (getByIndex ''name_idx'' VUndefined (opened by_name)) = Rejected (DOMException DataError)
     \<and> store (snd (getByIndex ''name_idx'' VUndefined (opened by_name))) = store (opened by_name)
     \<and> journal (snd (getByIndex ''name_idx'' VUndefined (opened by_name)))
         = journal (opened by_name) @ [(ReadOnly, [])]"
    by blast
  from r f no yes key(1) bad a b c run show ?thesis by blast
qed

section \<open>Calls before the handle is there\<close>

lemma openDB_journal: "journal (snd (openDB v w)) = journal w"
  by (simp add: openDB_def indexedDB_open_def onupgradeneeded_def split: option.splits)

lemma openDB_failed_rejects:
  assumes "openDB v w = (Inl e, w1)"
  shows "setItem_v1 v data w = (Rejected e, w1)"
    and "getItem_v1 v k w = (Rejected e, w1)"
    and "getAllItems_v1 v w = (Rejected e, w1)"
    and "removeItem_v1 v k w = (Rejected e, w1)"
    and "clear_v1 v w = (Rejected e, w1)"
    and "journal w1 = journal w"
  using assms openDB_journal[of v w]
  by (simp_all add: setItem_v1_def getItem_v1_def getAllItems_v1_def removeItem_v1_def clear_v1_def)

lemma unready_rejects:
  assumes "db w = None"
  shows "setItem data w = (Rejected TypeError, w)"
    and "getItem k w = (Rejected TypeError, w)"
    and "getAllItems w = (Rejected TypeError, w)"
    and "removeItem k w = (Rejected TypeError, w)"
    and "clear w = (Rejected TypeError, w)"
    and "hasItem k w = (Rejected TypeError, w)"
    and "count w = (Rejected TypeError, w)"
    and "updateItem k updates w = (Rejected TypeError, w)"
    and "getByIndex indexName v w = (Rejected TypeError, w)"
    and "getItemsByFilter filter_fn w = (Rejected TypeError, w)"
    and "getItemsByRange lo hi w = (Rejected TypeError, w)"
    and "bulkInsert items w = (Rejected TypeError, w)"
    and "bulkDelete ids w = (Rejected TypeError, w)"
  using assms
  by (simp_all add: setItem_def getItem_def getAllItems_def removeItem_def clear_def hasItem_def
        count_def updateItem_def getByIndex_def getItemsByFilter_def getItemsByRange_def
        bulkInsert_def bulkDelete_def tx_def)

lemma open_done_ready:
  assumes "pending w = Some v" "0 < v" "version w \<le> v"
  shows "db (open_done w) = Some Open"
    and "version w < v \<or> store w \<noteq> None \<Longrightarrow> store (open_done w) \<noteq> None"
  using assms
  by (auto simp: open_done_def indexedDB_open_def onupgradeneeded_def split: option.splits)

lemma closed_rejects:
  assumes "db w = Some Closed"
  shows "setItem data w = (Rejected (DOMException InvalidStateError), w)"
    and "getItem k w = (Rejected (DOMException InvalidStateError), w)"
    and "bulkInsert items w = (Rejected (DOMException InvalidStateError), w)"
  using assms
  by (simp_all add: setItem_def getItem_def bulkInsert_def tx_def transaction_def)

lemma open_done_fresh:
  "open_done (fresh\<lparr>pending := Some 1\<rparr>) =
     \<lparr>version = 1, store = Some \<lparr>records = [], keygen = 1, indexes = []\<rparr>, db = Some Open,
      pending = None, fates = [], journal = []\<rparr>"
  by (simp add: open_done_def indexedDB_open_def onupgradeneeded_def fresh_def)

text \<open>
  C1: the documented usage \<^verbatim>\<open>const db = new IDBHelper(...); await db.setItem(...)\<close>
  calls \<^verbatim>\<open>setItem\<close> while the open request of \<^verbatim>\<open>init\<close> is in flight: \<^verbatim>\<open>this.db\<close>
  is \<^verbatim>\<open>undefined\<close>, the call does not wait and is rejected with a TypeError, no
  transaction begun. The same call after the open has ended, and the same
  call on the class that awaits \<^verbatim>\<open>openDB\<close>, resolve with the id.
\<close>

theorem setItem_before_open_TypeError:
  "init 1 fresh = Some (fresh\<lparr>pending := Some 1\<rparr>)
   \<and> db (fresh\<lparr>pending := Some 1\<rparr>) = None
   \<and> setItem (person 1 ''A'' 1) (fresh\<lparr>pending := Some 1\<rparr>)
       = (Rejected TypeError, fresh\<lparr>pending := Some 1\<rparr>)
   \<and> fst (setItem (person 1 ''A'' 1) (open_done (fresh\<lparr>pending := Some 1\<rparr>))) = Resolved 1
   \<and> fst (setItem_v1 1 (person 1 ''A'' 1) fresh) = Resolved 1"
proof -
  have a: "init 1 fresh = Some (fresh\<lparr>pending := Some 1\<rparr>)"
    by (simp add: init_def)
  have b: "db (fresh\<lparr>pending := Some 1\<rparr>) = None"
    by (simp add: fresh_def)
  have c: "setItem (person 1 ''A'' 1) (fresh\<lparr>pending := Some 1\<rparr>)
       = (Rejected TypeError, fresh\<lparr>pending := Some 1\<rparr>)"
    by (rule unready_rejects(1)[OF b])
  have od: "db (open_done (fresh\<lparr>pending := Some 1\<rparr>)) = Some Open"
    "store (open_done (fresh\<lparr>pending := Some 1\<rparr>)) = Some \<lparr>records = [], keygen = 1, indexes = []\<rparr>"
    "fates (open_done (fresh\<lparr>pending := Some 1\<rparr>)) = []"
    unfolding open_done_fresh by simp_all
  have "item_id (person 1 ''A'' 1) = Some 1"
    by (simp add: person_def)
  from setItem_ready[OF od this]
  have d: "fst (setItem (person 1 ''A'' 1) (open_done (fresh\<lparr>pending := Some 1\<rparr>))) = Resolved 1"
    by auto
  have e: "fst (setItem_v1 1 (person 1 ''A'' 1) fresh) = Resolved 1"
    by (simp add: setItem_v1_def openDB_def indexedDB_open_def onupgradeneeded_def fresh_def
          transaction_def request_def next_fate_def fails_def commits_def settle_def store_put_def
          person_def)
  from a b c d e show ?thesis by blast
qed

section \<open>Failures reported by the engine\<close>

lemma request_fails:
  "fates w = RequestError 0 e # fs \<Longrightarrow>
   request rq prim st w = (Failure e, w\<lparr>fates := fs, journal := journal w @ [(fst st, [rq])]\<rparr>)"
  by (simp add: request_def next_fate_def fails_def)

lemma request_failure_rejects:
  assumes "db w = Some Open" "store w = Some s" "fates w = RequestError 0 e # fs"
  shows "setItem data w =
           (Rejected (DOMException e), w\<lparr>fates := fs, journal := journal w @ [(ReadWrite, [Put data])]\<rparr>)"
    and "getItem k w =
           (Rejected (DOMException e), w\<lparr>fates := fs, journal := journal w @ [(ReadOnly, [Get k])]\<rparr>)"
    and "getAllItems w =
           (Rejected (DOMException e), w\<lparr>fates := fs, journal := journal w @ [(ReadOnly, [GetAll])]\<rparr>)"
    and "removeItem k w =
           (Rejected (DOMException e), w\<lparr>fates := fs, journal := journal w @ [(ReadWrite, [Delete k])]\<rparr>)"
    and "clear w =
           (Rejected (DOMException e), w\<lparr>fates := fs, journal := journal w @ [(ReadWrite, [Clear])]\<rparr>)"
    and "hasItem k w =
           (Rejected (DOMException e), w\<lparr>fates := fs, journal := journal w @ [(ReadOnly, [Get k])]\<rparr>)"
    and "count w =
           (Rejected (DOMException e), w\<lparr>fates := fs, journal := journal w @ [(ReadOnly, [Count])]\<rparr>)"
    and "getItemsByFilter filter_fn w =
           (Rejected (DOMException e), w\<lparr>fates := fs, journal := journal w @ [(ReadOnly, [GetAll])]\<rparr>)"
    and "getItemsByRange lo hi w =
           (Rejected (DOMException e), w\<lparr>fates := fs, journal := journal w @ [(ReadOnly, [GetAll])]\<rparr>)"
    and "updateItem k updates w =
           (Rejected (DOMException e), w\<lparr>fates := fs, journal := journal w @ [(ReadOnly, [Get k])]\<rparr>)"
  using assms
  by (simp_all add: setItem_def getItem_def getAllItems_def removeItem_def clear_def hasItem_def
        count_def getItemsByFilter_def getItemsByRange_def updateItem_def tx_ready request_fails
        settle_def)

lemma request_failure_rejects_v1:
  assumes "0 < v" "version w \<le> v" "store w = Some s" "fates w = RequestError 0 e # fs"
  shows "setItem_v1 v data w =
           (Rejected (DOMException e),
            w\<lparr>version := v, fates := fs, journal := journal w @ [(ReadWrite, [Put data])]\<rparr>)"
    and "getItem_v1 v k w =
           (Rejected (DOMException e),
            w\<lparr>version := v, fates := fs, journal := journal w @ [(ReadOnly, [Get k])]\<rparr>)"
    and "getAllItems_v1 v w =
           (Rejected (DOMException e),
            w\<lparr>version := v, fates := fs, journal := journal w @ [(ReadOnly, [GetAll])]\<rparr>)"
    and "removeItem_v1 v k w =
           (Rejected (DOMException e),
            w\<lparr>version := v, fates := fs, journal := journal w @ [(ReadWrite, [Delete k])]\<rparr>)"
    and "clear_v1 v w =
           (Rejected (DOMException e),
            w\<lparr>version := v, fates := fs, journal := journal w @ [(ReadWrite, [Clear])]\<rparr>)"
  using assms
  by (simp_all add: setItem_v1_def getItem_v1_def getAllItems_v1_def removeItem_v1_def clear_v1_def
        openDB_usable transaction_Open request_fails settle_def)

lemma updateItem_put_failure:
  assumes "db w = Some Open" "store w = Some s" "fates w = Commit # RequestError 0 e # fs"
    and "map_of (records s) k = Some existing"
  shows "updateItem k updates w =
           (Rejected (DOMException e),
            w\<lparr>fates := fs,
              journal := journal w @ [(ReadOnly, [Get k]),
                (ReadWrite, [Put \<lparr>item_id = Some k, props = props existing ++ props updates\<rparr>])],
              store := Some s\<rparr>)"
proof -
  have g: "getItem k w =
      (Resolved (Some existing),
       w\<lparr>fates := RequestError 0 e # fs, journal := journal w @ [(ReadOnly, [Get k])], store := Some s\<rparr>)"
    using assms
    by (simp add: getItem_def tx_ready request_def next_fate_def fails_def commits_def settle_def
          store_get_def)
  show ?thesis
    using assms(1) by (simp add: updateItem_def g request_failure_rejects(1))
qed

text \<open>
  C5: when the one \<^verbatim>\<open>put\<close> of \<^verbatim>\<open>bulkInsert\<close> (or the one \<^verbatim>\<open>delete\<close> of
  \<^verbatim>\<open>bulkDelete\<close>) reports an error, the promise is rejected with \<^verbatim>\<open>tx.error\<close> as
  read in the transaction's error handler, which is \<^verbatim>\<open>null\<close>, and not with the
  error the engine reported; \<^verbatim>\<open>setItem\<close> in the same world is rejected with that
  error.
\<close>

theorem bulk_request_failure_rejects_null:
  "bulkInsert [person 10 ''J'' 1] (failing (RequestError 0 QuotaExceededError))
     = (Rejected Null, (opened one_person)\<lparr>journal := [(ReadWrite, [Put (person 10 ''J'' 1)])]\<rparr>)
   \<and> bulkDelete [1] (failing (RequestError 0 UnknownError))
     = (Rejected Null, (opened one_person)\<lparr>journal := [(ReadWrite, [Delete 1])]\<rparr>)
   \<and> setItem (person 10 ''J'' 1) (failing (RequestError 0 QuotaExceededError))
     = (Rejected (DOMException QuotaExceededError),
        (opened one_person)\<lparr>journal := [(ReadWrite, [Put (person 10 ''J'' 1)])]\<rparr>)"
  by (simp add: bulkInsert_def bulkDelete_def setItem_def tx_def failing_def opened_def
        transaction_def transact_def request_def settle_def next_fate_def fails_def)

section \<open>Bulk operations\<close>

lemma transact_fate:
  "fates w = f # fs \<Longrightarrow>
   transact rqs prims (m, s) w =
     (case run_requests prims 0 f s of
        Inl e \<Rightarrow> ([ErrorEvent None, Abort (Some e)], w\<lparr>fates := fs, journal := journal w @ [(m, rqs)]\<rparr>)
      | Inr s' \<Rightarrow>
          (case f of
             CommitError e \<Rightarrow> ([Abort (Some e)], w\<lparr>fates := fs, journal := journal w @ [(m, rqs)]\<rparr>)
           | _ \<Rightarrow> ([Complete], w\<lparr>fates := fs, journal := journal w @ [(m, rqs)], store := Some s'\<rparr>)))"
  by (simp add: transact_def next_fate_def Let_def split: sum.splits fate.splits)

lemma bulk_journal:
  assumes "db w = Some Open" "store w = Some s"
  shows "journal (snd (bulkInsert items w)) = journal w @ [(ReadWrite, map Put items)]"
    and "journal (snd (bulkDelete ids w)) = journal w @ [(ReadWrite, map Delete ids)]"
  using assms
  by (simp_all add: bulkInsert_def bulkDelete_def transaction_def transact_def Let_def
        split: sum.splits fate.splits)

lemma listen_Resolved: "listen sigs = Resolved u \<Longrightarrow> Complete \<in> set sigs"
  by (induction sigs rule: listen.induct) auto

lemma bulkInsert_all_or_nothing:
  assumes "db w = Some Open" "store w = Some s"
  shows "(fst (bulkInsert items w) = Resolved () \<and>
            (\<exists>s'. run_requests (map store_put items) 0 (next_fate w) s = Inr s'
               \<and> store (snd (bulkInsert items w)) = Some s'))
       \<or> (fst (bulkInsert items w) \<noteq> Resolved () \<and> store (snd (bulkInsert items w)) = store w)"
  using assms
  by (simp add: bulkInsert_def transaction_def transact_def Let_def split: sum.splits fate.splits)

lemma bulkDelete_all_or_nothing:
  assumes "db w = Some Open" "store w = Some s"
  shows "(fst (bulkDelete ids w) = Resolved () \<and>
            (\<exists>s'. run_requests (map store_delete ids) 0 (next_fate w) s = Inr s'
               \<and> store (snd (bulkDelete ids w)) = Some s'))
       \<or> (fst (bulkDelete ids w) \<noteq> Resolved () \<and> store (snd (bulkDelete ids w)) = store w)"
  using assms
  by (simp add: bulkDelete_def transaction_def transact_def Let_def split: sum.splits fate.splits)

lemma bulkInsert_resolved_retrievable:
  assumes "db w = Some Open" "store w = Some s"
    and "fst (bulkInsert items w) = Resolved ()" "r \<in> set items" "item_id r = Some k"
  shows "\<exists>s'. store (snd (bulkInsert items w)) = Some s' \<and> map_of (records s') k \<noteq> None"
proof -
  from bulkInsert_all_or_nothing[OF assms(1,2), of items] assms(3)
  obtain s' where "run_requests (map store_put items) 0 (next_fate w) s = Inr s'"
    and "store (snd (bulkInsert items w)) = Some s'"
    by blast
  with puts_retrievable[OF _ assms(4,5)] show ?thesis by blast
qed

text \<open>
  C4: when both \<^verbatim>\<open>put\<close> requests of \<^verbatim>\<open>bulkInsert\<close> succeed and the commit then
  fails, the transaction aborts with an abort event only; \<^verbatim>\<open>bulkInsert\<close> listens
  to \<^verbatim>\<open>complete\<close> and \<^verbatim>\<open>error\<close>, so its promise is neither resolved nor rejected.
  Likewise \<^verbatim>\<open>bulkDelete\<close>.
\<close>

theorem bulk_commit_failure_never_settles:
  "bulkInsert [person 10 ''J'' 1, person 11 ''K'' 2] (failing (CommitError QuotaExceededError))
     = (Pending, (opened one_person)\<lparr>journal := [(ReadWrite, [Put (person 10 ''J'' 1), Put (person 11 ''K'' 2)])]\<rparr>)
   \<and> bulkDelete [1] (failing (CommitError QuotaExceededError))
     = (Pending, (opened one_person)\<lparr>journal := [(ReadWrite, [Delete 1])]\<rparr>)"
  by (simp add: bulkInsert_def bulkDelete_def failing_def opened_def transaction_def transact_def
        next_fate_def fails_def store_put_def store_delete_def person_def)

end
